theory Spec2Isabelle
  imports Main
begin

section \<open>Python text and the built-ins the program calls\<close>

text \<open>
  A Python \<^verbatim>\<open>str\<close> is a sequence of Unicode code points, so it is modelled as a list of
  naturals. The program's own literals are Cyrillic; they are written below by their code
  points (hexadecimal, as in the U+ notation).
\<close>

type_synonym pystr = "nat list"

text \<open>
  \<^verbatim>\<open>str.strip()\<close> without argument removes the characters for which
  \<^verbatim>\<open>str.isspace\<close> holds, at both ends.
\<close>

definition py_isspace :: "nat \<Rightarrow> bool" where
  "py_isspace c \<longleftrightarrow>
     (0x9 \<le> c \<and> c \<le> 0xD) \<or> (0x1C \<le> c \<and> c \<le> 0x20) \<or> c = 0x85 \<or> c = 0xA0 \<or>
     c = 0x1680 \<or> (0x2000 \<le> c \<and> c \<le> 0x200A) \<or> c = 0x2028 \<or> c = 0x2029 \<or>
     c = 0x202F \<or> c = 0x205F \<or> c = 0x3000"

definition py_strip :: "pystr \<Rightarrow> pystr" where
  "py_strip s = rev (dropWhile py_isspace (rev (dropWhile py_isspace s)))"

text \<open>
  \<^verbatim>\<open>str.lower()\<close>, on the two alphabets the program reads: Basic Latin and the Cyrillic
  letters U+0400 to U+045F. Every other code point is left as it is; no code point outside
  these two ranges has one of the program's tokens as its lower-case form, so the readers
  below accept the same lines as with the full table.
\<close>

definition lower_cp :: "nat \<Rightarrow> nat" where
  "lower_cp c =
     (if 0x41 \<le> c \<and> c \<le> 0x5A then c + 0x20
      else if 0x410 \<le> c \<and> c \<le> 0x42F then c + 0x20
      else if 0x400 \<le> c \<and> c \<le> 0x40F then c + 0x50
      else c)"

definition py_lower :: "pystr \<Rightarrow> pystr" where
  "py_lower s = map lower_cp s"

text \<open>
  \<^verbatim>\<open>int(s)\<close> for a \<^verbatim>\<open>str\<close>, base ten, as CPython 3.11 does it. First the text is
  brought to ASCII: a code point below 127 stays, any other white space becomes a blank,
  any other decimal digit becomes its ASCII digit, and anything else makes the parse fail.
  \<open>decimal_zeros\<close> lists the zero digits of the scripts beyond ASCII (Unicode 14); the
  nine code points after each are its digits one to nine.
\<close>

definition decimal_zeros :: "nat list" where
  "decimal_zeros =
     [0x660, 0x6F0, 0x7C0, 0x966, 0x9E6, 0xA66, 0xAE6, 0xB66, 0xBE6, 0xC66, 0xCE6, 0xD66,
      0xDE6, 0xE50, 0xED0, 0xF20, 0x1040, 0x1090, 0x17E0, 0x1810, 0x1946, 0x19D0, 0x1A80,
      0x1A90, 0x1B50, 0x1BB0, 0x1C40, 0x1C50, 0xA620, 0xA8D0, 0xA900, 0xA9D0, 0xA9F0,
      0xAA50, 0xABF0, 0xFF10, 0x104A0, 0x10D30, 0x11066, 0x110F0, 0x11136, 0x111D0,
      0x112F0, 0x11450, 0x114D0, 0x11650, 0x116C0, 0x11730, 0x118E0, 0x11950, 0x11C50,
      0x11D50, 0x11DA0, 0x16A60, 0x16AC0, 0x16B50, 0x1D7CE, 0x1D7D8, 0x1D7E2, 0x1D7EC,
      0x1D7F6, 0x1E140, 0x1E2F0, 0x1E950, 0x1FBF0]"

definition py_decimal :: "nat \<Rightarrow> nat option" where
  "py_decimal c =
     (case find (\<lambda>z. z \<le> c \<and> c < z + 10) decimal_zeros of
        None \<Rightarrow> None
      | Some z \<Rightarrow> Some (c - z))"

fun to_ascii :: "pystr \<Rightarrow> pystr option" where
  "to_ascii [] = Some []"
| "to_ascii (c # cs) =
     (if c < 127 then map_option ((#) c) (to_ascii cs)
      else if py_isspace c then map_option ((#) 0x20) (to_ascii cs)
      else (case py_decimal c of
              None \<Rightarrow> None
            | Some d \<Rightarrow> map_option ((#) (0x30 + d)) (to_ascii cs)))"

text \<open>
  Then the ASCII text is read: white space (the C locale's six characters) is skipped at
  both ends, one sign may come first, and the rest is one or more digits, where a single
  underscore may stand between two digits. \<open>scan_digits\<close> returns the digits' values.
\<close>

definition int_space :: "nat \<Rightarrow> bool" where
  "int_space c \<longleftrightarrow> (0x9 \<le> c \<and> c \<le> 0xD) \<or> c = 0x20"

definition is_digit :: "nat \<Rightarrow> bool" where
  "is_digit c \<longleftrightarrow> 0x30 \<le> c \<and> c \<le> 0x39"

fun scan_digits :: "pystr \<Rightarrow> nat list option" where
  "scan_digits [] = None"
| "scan_digits [c] = (if is_digit c then Some [c - 0x30] else None)"
| "scan_digits (c # u # cs) =
     (if \<not> is_digit c then None
      else if u = 0x5F then map_option ((#) (c - 0x30)) (scan_digits cs)
      else map_option ((#) (c - 0x30)) (scan_digits (u # cs)))"

definition digits_value :: "nat list \<Rightarrow> nat" where
  "digits_value ds = foldl (\<lambda>a d. 10 * a + d) 0 ds"

text \<open>
  Since CPython 3.11 a decimal text of more than 4300 digits is refused with the same
  \<^verbatim>\<open>ValueError\<close> as a malformed one (the default of \<^verbatim>\<open>sys.set_int_max_str_digits\<close>,
  which the program does not change).
\<close>

definition max_str_digits :: nat where
  "max_str_digits = 4300"

definition parse_unsigned :: "pystr \<Rightarrow> nat option" where
  "parse_unsigned s =
     (case scan_digits s of
        None \<Rightarrow> None
      | Some ds \<Rightarrow> if max_str_digits < length ds then None else Some (digits_value ds))"

definition parse_signed :: "pystr \<Rightarrow> int option" where
  "parse_signed s =
     (case s of
        [] \<Rightarrow> None
      | c # cs \<Rightarrow>
          if c = 0x2B then map_option int (parse_unsigned cs)
          else if c = 0x2D then map_option (\<lambda>n. - int n) (parse_unsigned cs)
          else map_option int (parse_unsigned s))"

definition int_strip :: "pystr \<Rightarrow> pystr" where
  "int_strip s = rev (dropWhile int_space (rev (dropWhile int_space s)))"

text \<open>\<open>None\<close> stands for the \<^verbatim>\<open>ValueError\<close> that \<^verbatim>\<open>int\<close> raises.\<close>

definition py_int :: "pystr \<Rightarrow> int option" where
  "py_int s =
     (case to_ascii s of
        None \<Rightarrow> None
      | Some a \<Rightarrow> parse_signed (int_strip a))"

text \<open>
  \<^verbatim>\<open>str(n)\<close> of an integer, as the f-strings call it, and the format \<^verbatim>\<open>{x:>w}\<close>,
  which pads on the left with blanks up to width \<open>w\<close>.
\<close>

function nat_digits :: "nat \<Rightarrow> pystr" where
  "nat_digits n = (if n < 10 then [0x30 + n] else nat_digits (n div 10) @ [0x30 + n mod 10])"
  by pat_completeness auto
termination
  by (relation "measure (\<lambda>n. n)") auto

declare nat_digits.simps [simp del]

definition py_str :: "int \<Rightarrow> pystr" where
  "py_str i = (if i < 0 then 0x2D # nat_digits (nat (- i)) else nat_digits (nat i))"

definition py_rjust :: "nat \<Rightarrow> pystr \<Rightarrow> pystr" where
  "py_rjust w s = replicate (w - length s) 0x20 @ s"

section \<open>The data model\<close>

text \<open>
  The two enumerations (lines 10 to 17): each member's value is a one-letter text.
  Iterating over the class yields the members in the order of their declaration.
\<close>

datatype Gender = MALE | FEMALE

fun Gender_value :: "Gender \<Rightarrow> pystr" where
  "Gender_value MALE = [0x43C]"
| "Gender_value FEMALE = [0x436]"

definition Gender_members :: "Gender list" where
  "Gender_members = [MALE, FEMALE]"

datatype Education = PRIMARY | SECONDARY | HIGHER

fun Education_value :: "Education \<Rightarrow> pystr" where
  "Education_value PRIMARY = [0x43D]"
| "Education_value SECONDARY = [0x441]"
| "Education_value HIGHER = [0x432]"

definition Education_members :: "Education list" where
  "Education_members = [PRIMARY, SECONDARY, HIGHER]"

text \<open>The dataclass of lines 19 to 24.\<close>

record Form =
  age :: int
  gender :: Gender
  education :: Education
  answer_yes :: bool

text \<open>
  What is stored and read back is a tuple of the four columns \<^verbatim>\<open>age\<close>,
  \<^verbatim>\<open>gender\<close>, \<^verbatim>\<open>education\<close>, \<^verbatim>\<open>answer_yes\<close>: an integer, two texts and an
  integer. \<open>form_params\<close> is the tuple that line 84 builds from the four answers.
\<close>

type_synonym params = "int \<times> pystr \<times> pystr \<times> int"

definition int_of_bool :: "bool \<Rightarrow> int" where
  "int_of_bool b = (if b then 1 else 0)"

definition form_params :: "Form \<Rightarrow> params" where
  "form_params f =
     (age f, Gender_value (gender f), Education_value (education f), int_of_bool (answer_yes f))"

section \<open>The store\<close>

text \<open>
  The table \<^verbatim>\<open>forms\<close>: each row is its \<^verbatim>\<open>id\<close> and the four columns. The key is
  \<^verbatim>\<open>INTEGER PRIMARY KEY AUTOINCREMENT\<close>, so SQLite keeps in \<^verbatim>\<open>sqlite_sequence\<close> the
  largest key the table ever held, and a new row gets a key one above that and above every
  key in the table. (SQLite's keys end at \<open>2^63 - 1\<close>; the model's do not.)
\<close>

type_synonym row = "nat \<times> params"

record database =
  forms :: "row list"
  sqlite_sequence :: nat

definition empty_database :: database where
  "empty_database = \<lparr>forms = [], sqlite_sequence = 0\<rparr>"

definition next_rowid :: "database \<Rightarrow> nat" where
  "next_rowid d = Suc (foldr max (map fst (forms d)) (sqlite_sequence d))"

definition insert_row :: "database \<Rightarrow> params \<Rightarrow> database" where
  "insert_row d v =
     \<lparr>forms = forms d @ [(next_rowid d, v)], sqlite_sequence = next_rowid d\<rparr>"

text \<open>The four \<^verbatim>\<open>CHECK\<close> constraints of the schema (lines 34 to 37).\<close>

fun check_constraints :: "params \<Rightarrow> bool" where
  "check_constraints (a, g, e, y) \<longleftrightarrow>
     (0 \<le> a \<and> a \<le> 120) \<and>
     (g = [0x43C] \<or> g = [0x436]) \<and>
     (e = [0x43D] \<or> e = [0x441] \<or> e = [0x432]) \<and>
     (y = 0 \<or> y = 1)"

text \<open>
  The exceptions that can leave a function of the program. \<^verbatim>\<open>ValueError\<close> is not among
  them: \<open>read_int\<close> catches it.
\<close>

datatype py_error = EOFError | ProgrammingError | OverflowError | IntegrityError | KeyError

text \<open>
  A connection: the database as committed to the file, the database as the connection
  sees it inside its open transaction, and whether \<^verbatim>\<open>close\<close> was called. The cursor
  of the program is the same state: it has no state of its own between two statements.
  Opening cannot fail in the model; \<open>None\<close> is the file that does not exist yet.
\<close>

record connection =
  committed :: database
  working :: database
  closed :: bool

definition open_db :: "database option \<Rightarrow> connection" where
  "open_db file =
     (let d = (case file of None \<Rightarrow> empty_database | Some d \<Rightarrow> d)
      in \<lparr>committed = d, working = d, closed = False\<rparr>)"

definition commit :: "connection \<Rightarrow> py_error + connection" where
  "commit conn =
     (if closed conn then Inl ProgrammingError
      else Inr (conn\<lparr>committed := working conn\<rparr>))"

text \<open>Closing drops what was not committed.\<close>

definition close :: "connection \<Rightarrow> connection" where
  "close conn = conn\<lparr>working := committed conn, closed := True\<rparr>"

text \<open>
  \<^verbatim>\<open>INSERT INTO forms(age, gender, education, answer_yes) VALUES (?,?,?,?)\<close>: a closed
  connection refuses the statement, an integer beyond 64 bits cannot be bound, and a row
  that breaks a \<^verbatim>\<open>CHECK\<close> is not stored.
\<close>

definition int64 :: "int \<Rightarrow> bool" where
  "int64 i \<longleftrightarrow> - (2 ^ 63) \<le> i \<and> i < 2 ^ 63"

definition execute_insert :: "connection \<Rightarrow> params \<Rightarrow> py_error + connection" where
  "execute_insert conn v =
     (case v of (a, g, e, y) \<Rightarrow>
        if closed conn then Inl ProgrammingError
        else if \<not> int64 a \<or> \<not> int64 y then Inl OverflowError
        else if \<not> check_constraints v then Inl IntegrityError
        else Inr (conn\<lparr>working := insert_row (working conn) v\<rparr>))"

text \<open>\<^verbatim>\<open>SELECT age, gender, education, answer_yes FROM forms ORDER BY id\<close>.\<close>

definition select_forms :: "connection \<Rightarrow> py_error + params list" where
  "select_forms conn =
     (if closed conn then Inl ProgrammingError
      else Inr (map snd (sort_key fst (forms (working conn)))))"

text \<open>\<^verbatim>\<open>SELECT COUNT(*) FROM forms WHERE ...\<close>, for a condition on the four columns.\<close>

definition select_count :: "(params \<Rightarrow> bool) \<Rightarrow> connection \<Rightarrow> py_error + nat" where
  "select_count cond conn =
     (if closed conn then Inl ProgrammingError
      else Inr (length (filter (\<lambda>r. cond (snd r)) (forms (working conn)))))"

text \<open>The three conditions of \<open>show_stats\<close> (lines 107, 111 and 115).\<close>

fun men_40_yes_where :: "params \<Rightarrow> bool" where
  "men_40_yes_where (a, g, e, y) \<longleftrightarrow> g = [0x43C] \<and> a > 40 \<and> e = [0x432] \<and> y = 1"

fun women_30_no_where :: "params \<Rightarrow> bool" where
  "women_30_no_where (a, g, e, y) \<longleftrightarrow> g = [0x436] \<and> a < 30 \<and> e = [0x441] \<and> y = 0"

fun men_25_yes_where :: "params \<Rightarrow> bool" where
  "men_25_yes_where (a, g, e, y) \<longleftrightarrow> g = [0x43C] \<and> a < 25 \<and> e = [0x43D] \<and> y = 1"

section \<open>The console\<close>

text \<open>
  Standard input is the list of lines still to be read, standard output the list of what
  was written so far. \<^verbatim>\<open>input(p)\<close> writes \<open>p\<close> without a newline and returns the next
  line, or raises \<^verbatim>\<open>EOFError\<close> when there is none; \<^verbatim>\<open>print(s)\<close> writes a line.
\<close>

datatype out_item = Prompt pystr | Print pystr

type_synonym console = "pystr list \<times> out_item list"

definition py_input :: "pystr \<Rightarrow> console \<Rightarrow> (py_error + pystr) \<times> console" where
  "py_input p c =
     (case fst c of
        [] \<Rightarrow> (Inl EOFError, ([], snd c @ [Prompt p]))
      | l # ls \<Rightarrow> (Inr l, (ls, snd c @ [Prompt p])))"

definition py_print :: "pystr \<Rightarrow> console \<Rightarrow> console" where
  "py_print s c = (fst c, snd c @ [Print s])"

section \<open>The texts of the program\<close>

definition msg_range_from :: pystr where
  \<comment> \<open>line 54: the range message up to the lower bound, 'Vvedite chislo ot '\<close>
  "msg_range_from =
     [0x412, 0x432, 0x435, 0x434, 0x438, 0x442, 0x435, 0x20, 0x447, 0x438, 0x441, 0x43B,
      0x43E, 0x20, 0x43E, 0x442, 0x20]"

definition msg_range_to :: pystr where
  \<comment> \<open>line 54: its middle part, ' do '\<close>
  "msg_range_to =
     [0x20, 0x434, 0x43E, 0x20]"

definition msg_not_int :: pystr where
  \<comment> \<open>line 56: 'Oshibka: trebuetsya tseloe chislo.' (an integer is required)\<close>
  "msg_not_int =
     [0x41E, 0x448, 0x438, 0x431, 0x43A, 0x430, 0x3A, 0x20, 0x442, 0x440, 0x435, 0x431,
      0x443, 0x435, 0x442, 0x441, 0x44F, 0x20, 0x446, 0x435, 0x43B, 0x43E, 0x435, 0x20,
      0x447, 0x438, 0x441, 0x43B, 0x43E, 0x2E]"

definition msg_bad_input :: pystr where
  \<comment> \<open>line 65: 'Nevernyi vvod.' (wrong input)\<close>
  "msg_bad_input =
     [0x41D, 0x435, 0x432, 0x435, 0x440, 0x43D, 0x44B, 0x439, 0x20, 0x432, 0x432, 0x43E,
      0x434, 0x2E]"

definition yes_no_opts :: pystr where
  \<comment> \<open>line 69: the options shown after the question, ' (d/n): '\<close>
  "yes_no_opts =
     [0x20, 0x28, 0x434, 0x2F, 0x43D, 0x29, 0x3A, 0x20]"

definition msg_yes_no :: pystr where
  \<comment> \<open>line 72: the hint that asks for one of the two letters\<close>
  "msg_yes_no =
     [0x412, 0x432, 0x435, 0x434, 0x438, 0x442, 0x435, 0x20, 0x22, 0x434, 0x22, 0x20,
      0x438, 0x43B, 0x438, 0x20, 0x22, 0x43D, 0x22, 0x2E]"

definition prompt_age :: pystr where
  \<comment> \<open>line 78: 'Vozrast: ' (age)\<close>
  "prompt_age =
     [0x412, 0x43E, 0x437, 0x440, 0x430, 0x441, 0x442, 0x3A, 0x20]"

definition prompt_gender :: pystr where
  \<comment> \<open>line 79: 'Pol' (sex)\<close>
  "prompt_gender =
     [0x41F, 0x43E, 0x43B]"

definition prompt_education :: pystr where
  \<comment> \<open>line 80: the education question with its three letters\<close>
  "prompt_education =
     [0x41E, 0x431, 0x440, 0x430, 0x437, 0x43E, 0x432, 0x430, 0x43D, 0x438, 0x435, 0x20,
      0x2013, 0x20, 0x43D, 0x2D, 0x43D, 0x430, 0x447, 0x430, 0x43B, 0x44C, 0x43D, 0x43E,
      0x435, 0x2C, 0x20, 0x441, 0x2D, 0x441, 0x440, 0x435, 0x434, 0x43D, 0x435, 0x435,
      0x2C, 0x20, 0x432, 0x2D, 0x432, 0x44B, 0x441, 0x448, 0x435, 0x435]"

definition prompt_answer :: pystr where
  \<comment> \<open>line 81: the yes/no question on the yearly flu vaccination\<close>
  "prompt_answer =
     [0x412, 0x44B, 0x20, 0x435, 0x436, 0x435, 0x433, 0x43E, 0x434, 0x43D, 0x43E, 0x20,
      0x434, 0x435, 0x43B, 0x430, 0x435, 0x442, 0x435, 0x20, 0x43F, 0x440, 0x438, 0x432,
      0x438, 0x432, 0x43A, 0x443, 0x20, 0x43E, 0x442, 0x20, 0x433, 0x440, 0x438, 0x43F,
      0x43F, 0x430, 0x3F]"

definition msg_added :: pystr where
  \<comment> \<open>line 86: 'Spasibo, anketa dobavlena!' (the form was added)\<close>
  "msg_added =
     [0x421, 0x43F, 0x430, 0x441, 0x438, 0x431, 0x43E, 0x2C, 0x20, 0x430, 0x43D, 0x43A,
      0x435, 0x442, 0x430, 0x20, 0x434, 0x43E, 0x431, 0x430, 0x432, 0x43B, 0x435, 0x43D,
      0x430, 0x21]"

definition msg_empty_list :: pystr where
  \<comment> \<open>line 94: 'Spisok anket pust.' (the list is empty)\<close>
  "msg_empty_list =
     [0x421, 0x43F, 0x438, 0x441, 0x43E, 0x43A, 0x20, 0x430, 0x43D, 0x43A, 0x435, 0x442,
      0x20, 0x43F, 0x443, 0x441, 0x442, 0x2E]"

definition list_header :: pystr where
  \<comment> \<open>line 96: the header of the listing, with its leading newline\<close>
  "list_header =
     [0xA, 0x2D, 0x2D, 0x2D, 0x20, 0x412, 0x441, 0x435, 0x20, 0x430, 0x43D, 0x43A, 0x435,
      0x442, 0x44B, 0x20, 0x2D, 0x2D, 0x2D]"

definition txt_male :: pystr where
  \<comment> \<open>line 98: 'muzh'\<close>
  "txt_male =
     [0x43C, 0x443, 0x436]"

definition txt_female :: pystr where
  \<comment> \<open>line 98: 'zhen'\<close>
  "txt_female =
     [0x436, 0x435, 0x43D]"

definition txt_primary :: pystr where
  \<comment> \<open>line 99: 'nach'\<close>
  "txt_primary =
     [0x43D, 0x430, 0x447]"

definition txt_secondary :: pystr where
  \<comment> \<open>line 99: 'sred'\<close>
  "txt_secondary =
     [0x441, 0x440, 0x435, 0x434]"

definition txt_higher :: pystr where
  \<comment> \<open>line 99: 'vyssh'\<close>
  "txt_higher =
     [0x432, 0x44B, 0x441, 0x448]"

definition txt_years :: pystr where
  \<comment> \<open>line 100: ' let, ' (years)\<close>
  "txt_years =
     [0x20, 0x43B, 0x435, 0x442, 0x2C, 0x20]"

definition txt_answer :: pystr where
  \<comment> \<open>line 100: ', otvet='\<close>
  "txt_answer =
     [0x2C, 0x20, 0x43E, 0x442, 0x432, 0x435, 0x442, 0x3D]"

definition txt_yes :: pystr where
  \<comment> \<open>line 100: 'DA'\<close>
  "txt_yes =
     [0x414, 0x410]"

definition txt_no :: pystr where
  \<comment> \<open>line 100: 'NET'\<close>
  "txt_no =
     [0x41D, 0x415, 0x422]"

definition rule_line :: pystr where
  \<comment> \<open>line 101: the closing rule of eighteen hyphens (also line 121)\<close>
  "rule_line =
     [0x2D, 0x2D, 0x2D, 0x2D, 0x2D, 0x2D, 0x2D, 0x2D, 0x2D, 0x2D, 0x2D, 0x2D, 0x2D, 0x2D,
      0x2D, 0x2D, 0x2D, 0x2D]"

definition stats_header :: pystr where
  \<comment> \<open>line 117: the header of the statistics, with its leading newline\<close>
  "stats_header =
     [0xA, 0x2D, 0x2D, 0x2D, 0x20, 0x421, 0x442, 0x430, 0x442, 0x438, 0x441, 0x442, 0x438,
      0x43A, 0x430, 0x20, 0x2D, 0x2D, 0x2D]"

definition stats_men_40 :: pystr where
  \<comment> \<open>line 118: the label of the first count (men over 40, higher education, yes)\<close>
  "stats_men_40 =
     [0x41C, 0x443, 0x436, 0x447, 0x438, 0x43D, 0x20, 0x441, 0x442, 0x430, 0x440, 0x448,
      0x435, 0x20, 0x34, 0x30, 0x20, 0x441, 0x20, 0x432, 0x44B, 0x441, 0x448, 0x438, 0x43C,
      0x20, 0x43E, 0x431, 0x440, 0x430, 0x437, 0x43E, 0x432, 0x430, 0x43D, 0x438, 0x435,
      0x43C, 0x20, 0x438, 0x20, 0x43E, 0x442, 0x432, 0x435, 0x442, 0x43E, 0x43C, 0x20,
      0x414, 0x410, 0x20, 0x3A, 0x20]"

definition stats_women_30 :: pystr where
  \<comment> \<open>line 119: the label of the second count (women under 30, secondary education, no)\<close>
  "stats_women_30 =
     [0x416, 0x435, 0x43D, 0x449, 0x438, 0x43D, 0x20, 0x43C, 0x43E, 0x43B, 0x43E, 0x436,
      0x435, 0x20, 0x33, 0x30, 0x20, 0x441, 0x43E, 0x20, 0x441, 0x440, 0x435, 0x434, 0x43D,
      0x438, 0x43C, 0x20, 0x43E, 0x431, 0x440, 0x430, 0x437, 0x43E, 0x432, 0x430, 0x43D,
      0x438, 0x435, 0x43C, 0x20, 0x438, 0x20, 0x43E, 0x442, 0x432, 0x435, 0x442, 0x43E,
      0x43C, 0x20, 0x41D, 0x415, 0x422, 0x3A, 0x20]"

definition stats_men_25 :: pystr where
  \<comment> \<open>line 120: the label of the third count (men under 25, primary education, yes)\<close>
  "stats_men_25 =
     [0x41C, 0x443, 0x436, 0x447, 0x438, 0x43D, 0x20, 0x43C, 0x43E, 0x43B, 0x43E, 0x436,
      0x435, 0x20, 0x32, 0x35, 0x20, 0x441, 0x20, 0x43D, 0x430, 0x447, 0x430, 0x43B, 0x44C,
      0x43D, 0x44B, 0x43C, 0x20, 0x43E, 0x431, 0x440, 0x430, 0x437, 0x43E, 0x432, 0x430,
      0x43D, 0x438, 0x435, 0x43C, 0x20, 0x438, 0x20, 0x43E, 0x442, 0x432, 0x435, 0x442,
      0x43E, 0x43C, 0x20, 0x414, 0x410, 0x3A, 0x20]"

definition menu_title :: pystr where
  \<comment> \<open>line 126: 'Menyu:' with its leading newline\<close>
  "menu_title =
     [0xA, 0x41C, 0x435, 0x43D, 0x44E, 0x3A]"

definition menu_add :: pystr where
  \<comment> \<open>line 127: the menu line of choice 1\<close>
  "menu_add =
     [0x31, 0x20, 0x2013, 0x20, 0x414, 0x43E, 0x431, 0x430, 0x432, 0x438, 0x442, 0x44C,
      0x20, 0x430, 0x43D, 0x43A, 0x435, 0x442, 0x443]"

definition menu_list :: pystr where
  \<comment> \<open>line 128: the menu line of choice 2\<close>
  "menu_list =
     [0x32, 0x20, 0x2013, 0x20, 0x41F, 0x43E, 0x43A, 0x430, 0x437, 0x430, 0x442, 0x44C,
      0x20, 0x432, 0x441, 0x435, 0x20, 0x430, 0x43D, 0x43A, 0x435, 0x442, 0x44B]"

definition menu_stats :: pystr where
  \<comment> \<open>line 129: the menu line of choice 3\<close>
  "menu_stats =
     [0x33, 0x20, 0x2013, 0x20, 0x41F, 0x43E, 0x43A, 0x430, 0x437, 0x430, 0x442, 0x44C,
      0x20, 0x441, 0x442, 0x430, 0x442, 0x438, 0x441, 0x442, 0x438, 0x43A, 0x443]"

definition menu_exit :: pystr where
  \<comment> \<open>line 130: the menu line of choice 0\<close>
  "menu_exit =
     [0x30, 0x20, 0x2013, 0x20, 0x412, 0x44B, 0x445, 0x43E, 0x434]"

definition prompt_choice :: pystr where
  \<comment> \<open>line 131: 'Vybor: ' (choice)\<close>
  "prompt_choice =
     [0x412, 0x44B, 0x431, 0x43E, 0x440, 0x3A, 0x20]"

definition msg_no_item :: pystr where
  \<comment> \<open>line 150: 'Net takogo punkta.' (no such item)\<close>
  "msg_no_item =
     [0x41D, 0x435, 0x442, 0x20, 0x442, 0x430, 0x43A, 0x43E, 0x433, 0x43E, 0x20, 0x43F,
      0x443, 0x43D, 0x43A, 0x442, 0x430, 0x2E]"

definition msg_goodbye :: pystr where
  \<comment> \<open>line 153: 'Do svidaniya!'\<close>
  "msg_goodbye =
     [0x414, 0x43E, 0x20, 0x441, 0x432, 0x438, 0x434, 0x430, 0x43D, 0x438, 0x44F, 0x21]"

section \<open>The readers\<close>

text \<open>
  \<open>read_int\<close> (lines 48 to 56). Each turn of the loop reads one line, so the loop ends
  at the latest when the input does, with \<^verbatim>\<open>EOFError\<close>.
\<close>

definition msg_range :: "int \<Rightarrow> int \<Rightarrow> pystr" where
  "msg_range lo hi = msg_range_from @ py_str lo @ msg_range_to @ py_str hi @ [0x2E]"

function read_int :: "pystr \<Rightarrow> int \<Rightarrow> int \<Rightarrow> console \<Rightarrow> (py_error + int) \<times> console" where
  "read_int prompt lo hi c =
     (case py_input prompt c of
        (Inl err, c1) \<Rightarrow> (Inl err, c1)
      | (Inr line, c1) \<Rightarrow>
          (case py_int line of
             None \<Rightarrow> read_int prompt lo hi (py_print msg_not_int c1)
           | Some val \<Rightarrow>
               if lo \<le> val \<and> val \<le> hi then (Inr val, c1)
               else read_int prompt lo hi (py_print (msg_range lo hi) c1)))"
  by pat_completeness auto
termination
  by (relation "measure (\<lambda>(prompt, lo, hi, c). length (fst c))")
     (auto simp: py_input_def py_print_def split: list.splits)

declare read_int.simps [simp del]

text \<open>
  \<open>read_enum\<close> (lines 58 to 65), for any enumeration, given by its members in order and
  their values. \<open>enum_find\<close> is the inner \<^verbatim>\<open>for\<close> loop, which returns the first
  member whose value is the lower-cased line.
\<close>

fun py_join :: "pystr \<Rightarrow> pystr list \<Rightarrow> pystr" where
  "py_join sep [] = []"
| "py_join sep [s] = s"
| "py_join sep (s # t # ts) = s @ sep @ py_join sep (t # ts)"

fun enum_find :: "('e \<Rightarrow> pystr) \<Rightarrow> pystr \<Rightarrow> 'e list \<Rightarrow> 'e option" where
  "enum_find val_of v [] = None"
| "enum_find val_of v (e # es) = (if v = val_of e then Some e else enum_find val_of v es)"

definition enum_prompt :: "pystr \<Rightarrow> 'e list \<Rightarrow> ('e \<Rightarrow> pystr) \<Rightarrow> pystr" where
  "enum_prompt prompt members val_of =
     prompt @ [0x20, 0x28] @ py_join [0x2F] (map val_of members) @ [0x29, 0x3A, 0x20]"

function read_enum ::
  "pystr \<Rightarrow> 'e list \<Rightarrow> ('e \<Rightarrow> pystr) \<Rightarrow> console \<Rightarrow> (py_error + 'e) \<times> console" where
  "read_enum prompt members val_of c =
     (case py_input (enum_prompt prompt members val_of) c of
        (Inl err, c1) \<Rightarrow> (Inl err, c1)
      | (Inr line, c1) \<Rightarrow>
          (case enum_find val_of (py_lower line) members of
             Some e \<Rightarrow> (Inr e, c1)
           | None \<Rightarrow> read_enum prompt members val_of (py_print msg_bad_input c1)))"
  by pat_completeness auto
termination
  by (relation "measure (\<lambda>(prompt, members, val_of, c). length (fst c))")
     (auto simp: py_input_def py_print_def split: list.splits)

declare read_enum.simps [simp del]

text \<open>\<open>read_yes_no\<close> (lines 67 to 72).\<close>

function read_yes_no :: "pystr \<Rightarrow> console \<Rightarrow> (py_error + bool) \<times> console" where
  "read_yes_no prompt c =
     (case py_input (prompt @ yes_no_opts) c of
        (Inl err, c1) \<Rightarrow> (Inl err, c1)
      | (Inr line, c1) \<Rightarrow>
          (let val = py_lower line
           in if val = [0x434] \<or> val = [0x43D] then (Inr (val = [0x434]), c1)
              else read_yes_no prompt (py_print msg_yes_no c1)))"
  by pat_completeness auto
termination
  by (relation "measure (\<lambda>(prompt, c). length (fst c))")
     (auto simp: py_input_def py_print_def split: list.splits)

declare read_yes_no.simps [simp del]

section \<open>The operations\<close>

text \<open>\<open>add_form\<close> (lines 77 to 86): four answers, one \<^verbatim>\<open>INSERT\<close>, one line of thanks.\<close>

definition add_form :: "console \<Rightarrow> connection \<Rightarrow> (py_error + unit) \<times> console \<times> connection" where
  "add_form c cur =
     (case read_int prompt_age 0 120 c of
        (Inl err, c1) \<Rightarrow> (Inl err, c1, cur)
      | (Inr a, c1) \<Rightarrow>
     (case read_enum prompt_gender Gender_members Gender_value c1 of
        (Inl err, c2) \<Rightarrow> (Inl err, c2, cur)
      | (Inr g, c2) \<Rightarrow>
     (case read_enum prompt_education Education_members Education_value c2 of
        (Inl err, c3) \<Rightarrow> (Inl err, c3, cur)
      | (Inr e, c3) \<Rightarrow>
     (case read_yes_no prompt_answer c3 of
        (Inl err, c4) \<Rightarrow> (Inl err, c4, cur)
      | (Inr answer, c4) \<Rightarrow>
     (case execute_insert cur (a, Gender_value g, Education_value e, int_of_bool answer) of
        Inl err \<Rightarrow> (Inl err, c4, cur)
      | Inr cur' \<Rightarrow> (Inr (), py_print msg_added c4, cur'))))))"

text \<open>
  \<open>list_forms\<close> (lines 89 to 101). The lookup of the education's short name in the
  dictionary of line 99 raises \<^verbatim>\<open>KeyError\<close> for any other text; the sex is shown as
  female unless it is the male letter; the answer is shown as yes unless it is zero.
\<close>

definition gender_ru :: "pystr \<Rightarrow> pystr" where
  "gender_ru g = (if g = [0x43C] then txt_male else txt_female)"

definition edu_ru :: "pystr \<Rightarrow> pystr option" where
  "edu_ru e =
     (if e = [0x43D] then Some txt_primary
      else if e = [0x441] then Some txt_secondary
      else if e = [0x432] then Some txt_higher
      else None)"

fun format_row :: "nat \<Rightarrow> params \<Rightarrow> pystr option" where
  "format_row idx (a, g, e, y) =
     (case edu_ru e of
        None \<Rightarrow> None
      | Some edu \<Rightarrow>
          Some (py_rjust 2 (py_str (int idx)) @ [0x29, 0x20] @ py_rjust 3 (py_str a) @
                txt_years @ gender_ru g @ [0x2C, 0x20] @ edu @ txt_answer @
                (if y \<noteq> 0 then txt_yes else txt_no)))"

fun print_rows :: "nat \<Rightarrow> params list \<Rightarrow> console \<Rightarrow> (py_error + unit) \<times> console" where
  "print_rows idx [] c = (Inr (), c)"
| "print_rows idx (r # rs) c =
     (case format_row idx r of
        None \<Rightarrow> (Inl KeyError, c)
      | Some s \<Rightarrow> print_rows (Suc idx) rs (py_print s c))"

definition list_forms :: "console \<Rightarrow> connection \<Rightarrow> (py_error + unit) \<times> console" where
  "list_forms c cur =
     (case select_forms cur of
        Inl err \<Rightarrow> (Inl err, c)
      | Inr rows \<Rightarrow>
          if rows = [] then (Inr (), py_print msg_empty_list c)
          else (case print_rows 1 rows (py_print list_header c) of
                  (Inl err, c1) \<Rightarrow> (Inl err, c1)
                | (Inr u, c1) \<Rightarrow> (Inr (), py_print rule_line c1)))"

text \<open>\<open>show_stats\<close> (lines 104 to 121): the three counts, then five lines.\<close>

definition show_stats :: "console \<Rightarrow> connection \<Rightarrow> (py_error + unit) \<times> console" where
  "show_stats c cur =
     (case select_count men_40_yes_where cur of
        Inl err \<Rightarrow> (Inl err, c)
      | Inr men_40_yes \<Rightarrow>
     (case select_count women_30_no_where cur of
        Inl err \<Rightarrow> (Inl err, c)
      | Inr women_30_no \<Rightarrow>
     (case select_count men_25_yes_where cur of
        Inl err \<Rightarrow> (Inl err, c)
      | Inr men_25_yes \<Rightarrow>
          (Inr (),
           py_print rule_line
             (py_print (stats_men_25 @ py_str (int men_25_yes))
               (py_print (stats_women_30 @ py_str (int women_30_no))
                 (py_print (stats_men_40 @ py_str (int men_40_yes))
                   (py_print stats_header c))))))))"

section \<open>The menu loop\<close>

text \<open>\<open>menu\<close> (lines 125 to 131): five lines, then the choice, stripped.\<close>

definition menu :: "console \<Rightarrow> (py_error + pystr) \<times> console" where
  "menu c =
     (case py_input prompt_choice
             (py_print menu_exit (py_print menu_stats (py_print menu_list
               (py_print menu_add (py_print menu_title c))))) of
        (Inl err, c1) \<Rightarrow> (Inl err, c1)
      | (Inr line, c1) \<Rightarrow> (Inr (py_strip line), c1))"

text \<open>
  One turn of the loop of \<open>main\<close> (lines 139 to 150). It ends in \<open>Running\<close> when the loop
  goes on to its next turn and in \<open>Exited\<close> when it takes the \<^verbatim>\<open>break\<close>; an exception
  leaves the loop with neither.
\<close>

datatype loop_state = Running | Exited

definition loop_body ::
  "console \<Rightarrow> connection \<Rightarrow> (py_error + loop_state) \<times> console \<times> connection" where
  "loop_body c conn =
     (case menu c of
        (Inl err, c1) \<Rightarrow> (Inl err, c1, conn)
      | (Inr choice, c1) \<Rightarrow>
          if choice = [0x31] then
            (case add_form c1 conn of
               (Inl err, c2, conn2) \<Rightarrow> (Inl err, c2, conn2)
             | (Inr u, c2, conn2) \<Rightarrow>
                 (case commit conn2 of
                    Inl err \<Rightarrow> (Inl err, c2, conn2)
                  | Inr conn3 \<Rightarrow> (Inr Running, c2, conn3)))
          else if choice = [0x32] then
            (case list_forms c1 conn of
               (Inl err, c2) \<Rightarrow> (Inl err, c2, conn)
             | (Inr u, c2) \<Rightarrow> (Inr Running, c2, conn))
          else if choice = [0x33] then
            (case show_stats c1 conn of
               (Inl err, c2) \<Rightarrow> (Inl err, c2, conn)
             | (Inr u, c2) \<Rightarrow> (Inr Running, c2, conn))
          else if choice = [0x30] then (Inr Exited, c1, conn)
          else (Inr Running, py_print msg_no_item c1, conn))"

section \<open>The readers, line by line\<close>

text \<open>
  What each reader does on an exhausted input and on a first line \<open>l\<close>: the equations
  that the proofs below use.
\<close>

lemma py_print_lines [simp]: "fst (py_print s c) = fst c"
  by (simp add: py_print_def)

lemma read_int_eof:
  "read_int p lo hi ([], out) = (Inl EOFError, ([], out @ [Prompt p]))"
  by (simp add: read_int.simps [of p lo hi "([], out)"] py_input_def)

lemma read_int_line:
  "read_int p lo hi (l # ls, out) =
     (case py_int l of
        None \<Rightarrow> read_int p lo hi (ls, out @ [Prompt p, Print msg_not_int])
      | Some v \<Rightarrow>
          if lo \<le> v \<and> v \<le> hi then (Inr v, (ls, out @ [Prompt p]))
          else read_int p lo hi (ls, out @ [Prompt p, Print (msg_range lo hi)]))"
  by (simp add: read_int.simps [of p lo hi "(l # ls, out)"] py_input_def py_print_def
           split: option.splits)

lemma read_enum_eof:
  "read_enum p ms val_of ([], out) =
     (Inl EOFError, ([], out @ [Prompt (enum_prompt p ms val_of)]))"
  by (simp add: read_enum.simps [of p ms val_of "([], out)"] py_input_def)

lemma read_enum_line:
  "read_enum p ms val_of (l # ls, out) =
     (case enum_find val_of (py_lower l) ms of
        Some e \<Rightarrow> (Inr e, (ls, out @ [Prompt (enum_prompt p ms val_of)]))
      | None \<Rightarrow>
          read_enum p ms val_of
            (ls, out @ [Prompt (enum_prompt p ms val_of), Print msg_bad_input]))"
  by (simp add: read_enum.simps [of p ms val_of "(l # ls, out)"] py_input_def py_print_def
           split: option.splits)

lemma read_yes_no_eof:
  "read_yes_no p ([], out) = (Inl EOFError, ([], out @ [Prompt (p @ yes_no_opts)]))"
  by (simp add: read_yes_no.simps [of p "([], out)"] py_input_def)

lemma read_yes_no_line:
  "read_yes_no p (l # ls, out) =
     (if py_lower l = [0x434] \<or> py_lower l = [0x43D]
      then (Inr (py_lower l = [0x434]), (ls, out @ [Prompt (p @ yes_no_opts)]))
      else read_yes_no p (ls, out @ [Prompt (p @ yes_no_opts), Print msg_yes_no]))"
  by (simp add: read_yes_no.simps [of p "(l # ls, out)"] py_input_def py_print_def Let_def)

text \<open>
  No reader and no operation gives lines back to the input, and a turn of the loop that
  goes on has read at least the line of the choice: this is what ends the loop.
\<close>

lemma read_int_lines: "length (fst (snd (read_int p lo hi (ls, out)))) \<le> length ls"
proof (induction ls arbitrary: out)
  case Nil
  show ?case by (simp add: read_int_eof)
next
  case (Cons l ls)
  show ?case
    using Cons.IH [of "out @ [Prompt p, Print msg_not_int]"]
          Cons.IH [of "out @ [Prompt p, Print (msg_range lo hi)]"]
    by (simp add: read_int_line split: option.splits)
qed

lemma read_enum_lines:
  "length (fst (snd (read_enum p ms val_of (ls, out)))) \<le> length ls"
proof (induction ls arbitrary: out)
  case Nil
  show ?case by (simp add: read_enum_eof)
next
  case (Cons l ls)
  show ?case
    using Cons.IH [of "out @ [Prompt (enum_prompt p ms val_of), Print msg_bad_input]"]
    by (simp add: read_enum_line split: option.splits)
qed

lemma read_yes_no_lines: "length (fst (snd (read_yes_no p (ls, out)))) \<le> length ls"
proof (induction ls arbitrary: out)
  case Nil
  show ?case by (simp add: read_yes_no_eof)
next
  case (Cons l ls)
  show ?case
    using Cons.IH [of "out @ [Prompt (p @ yes_no_opts), Print msg_yes_no]"]
    by (simp add: read_yes_no_line)
qed

lemma add_form_lines: "length (fst (fst (snd (add_form c cur)))) \<le> length (fst c)"
proof -
  obtain ls out where c: "c = (ls, out)" by (cases c)
  obtain r1 l1 o1 where s1: "read_int prompt_age 0 120 (ls, out) = (r1, (l1, o1))"
    by (metis prod.exhaust)
  have n1: "length l1 \<le> length ls"
    using read_int_lines [of prompt_age 0 120 ls out] s1 by simp
  obtain r2 l2 o2 where
    s2: "read_enum prompt_gender Gender_members Gender_value (l1, o1) = (r2, (l2, o2))"
    by (metis prod.exhaust)
  have n2: "length l2 \<le> length l1"
    using read_enum_lines [of prompt_gender Gender_members Gender_value l1 o1] s2 by simp
  obtain r3 l3 o3 where
    s3: "read_enum prompt_education Education_members Education_value (l2, o2) = (r3, (l3, o3))"
    by (metis prod.exhaust)
  have n3: "length l3 \<le> length l2"
    using read_enum_lines [of prompt_education Education_members Education_value l2 o2] s3
    by simp
  obtain r4 l4 o4 where s4: "read_yes_no prompt_answer (l3, o3) = (r4, (l4, o4))"
    by (metis prod.exhaust)
  have n4: "length l4 \<le> length l3"
    using read_yes_no_lines [of prompt_answer l3 o3] s4 by simp
  show ?thesis
    using n1 n2 n3 n4
    by (simp add: add_form_def c s1 s2 s3 s4 split: sum.splits)
qed

lemma add_form_lines_dest:
  "add_form c cur = (r, c', cur') \<Longrightarrow> length (fst c') \<le> length (fst c)"
  using add_form_lines [of c cur] by simp

lemma print_rows_lines: "print_rows idx rows c = (r, c') \<Longrightarrow> fst c' = fst c"
  by (induction rows arbitrary: idx c) (auto split: option.splits)

lemma list_forms_lines: "list_forms c cur = (r, c') \<Longrightarrow> fst c' = fst c"
  by (auto simp: list_forms_def split: sum.splits if_splits prod.splits
           dest: print_rows_lines)

lemma show_stats_lines: "show_stats c cur = (r, c') \<Longrightarrow> fst c' = fst c"
  by (auto simp: show_stats_def split: sum.splits)

lemma menu_eof:
  "menu ([], out) =
     (Inl EOFError,
      ([], out @ [Print menu_title, Print menu_add, Print menu_list, Print menu_stats,
                  Print menu_exit, Prompt prompt_choice]))"
  by (simp add: menu_def py_input_def py_print_def)

lemma menu_line:
  "menu (l # ls, out) =
     (Inr (py_strip l),
      (ls, out @ [Print menu_title, Print menu_add, Print menu_list, Print menu_stats,
                  Print menu_exit, Prompt prompt_choice]))"
  by (simp add: menu_def py_input_def py_print_def)

lemma loop_body_lines:
  assumes "loop_body c conn = (Inr Running, c', conn')"
  shows "length (fst c') < length (fst c)"
proof -
  obtain ls out where c: "c = (ls, out)" by (cases c)
  show ?thesis
  proof (cases ls)
    case Nil
    with assms c show ?thesis by (simp add: loop_body_def menu_eof)
  next
    case (Cons l ls')
    from assms show ?thesis
      unfolding c Cons loop_body_def menu_line
      by (auto split: if_splits sum.splits prod.splits
               dest: add_form_lines_dest list_forms_lines show_stats_lines)
  qed
qed

text \<open>
  The loop of \<open>main\<close> (lines 138 to 150) and \<open>main\<close> itself (lines 134 to 153). The result
  is the exception that ended the run, if any. \<open>main\<close> gets the file, if it exists, and the
  lines of standard input; its \<^verbatim>\<open>finally\<close> block runs on the way out of the loop, by
  \<^verbatim>\<open>break\<close> and by exception alike, and an exception goes on to the caller after it.
\<close>

function main_loop :: "console \<Rightarrow> connection \<Rightarrow> py_error option \<times> console \<times> connection" where
  "main_loop c conn =
     (case loop_body c conn of
        (Inl err, c1, conn1) \<Rightarrow> (Some err, c1, conn1)
      | (Inr Exited, c1, conn1) \<Rightarrow> (None, c1, conn1)
      | (Inr Running, c1, conn1) \<Rightarrow> main_loop c1 conn1)"
  by pat_completeness auto
termination
  by (relation "measure (\<lambda>(c, conn). length (fst c))") (auto dest: loop_body_lines [OF sym])

declare main_loop.simps [simp del]

definition main ::
  "database option \<Rightarrow> pystr list \<Rightarrow> py_error option \<times> console \<times> connection" where
  "main file lines =
     (let conn = open_db file
      in case main_loop (lines, []) conn of
           (None, c1, conn1) \<Rightarrow> (None, py_print msg_goodbye c1, close conn1)
         | (Some err, c1, conn1) \<Rightarrow> (Some err, py_print msg_goodbye c1, close conn1))"

section \<open>Properties of the store\<close>

lemma execute_insert_ok:
  assumes "execute_insert conn v = Inr conn'"
  shows "\<not> closed conn \<and> \<not> closed conn' \<and> check_constraints v \<and>
         committed conn' = committed conn \<and>
         forms (working conn') = forms (working conn) @ [(next_rowid (working conn), v)]"
  using assms
  by (cases v) (auto simp: execute_insert_def insert_row_def split: if_splits)

lemma execute_insert_valid:
  assumes "\<not> closed conn" and "check_constraints v"
  shows "execute_insert conn v = Inr (conn\<lparr>working := insert_row (working conn) v\<rparr>)"
proof -
  obtain a g e y where v: "v = (a, g, e, y)" by (cases v)
  from assms(2) have "int64 a" and "int64 y"
    by (auto simp: v int64_def)
  with assms show ?thesis
    by (simp add: execute_insert_def v)
qed

lemma select_count_insert:
  assumes "execute_insert conn v = Inr conn'"
  shows "\<exists>n. select_count cond conn = Inr n \<and>
             select_count cond conn' = Inr (if cond v then Suc n else n)"
  using execute_insert_ok [OF assms]
  by (simp add: select_count_def)

text \<open>
  C2. Each of the three counts of \<open>show_stats\<close> is taken under a conjunction of four
  comparisons on the stored columns. Whatever the connection holds, an \<^verbatim>\<open>INSERT\<close>
  that stores a row meeting all four clauses of a count raises that count by exactly one,
  and one that stores a row failing at least one clause leaves the count as it was.
\<close>

theorem stats_count_insert:
  assumes "execute_insert conn (a, g, e, y) = Inr conn'"
  shows "(\<exists>n. select_count men_40_yes_where conn = Inr n \<and>
              select_count men_40_yes_where conn' =
                Inr (if g = [0x43C] \<and> a > 40 \<and> e = [0x432] \<and> y = 1 then n + 1 else n)) \<and>
         (\<exists>n. select_count women_30_no_where conn = Inr n \<and>
              select_count women_30_no_where conn' =
                Inr (if g = [0x436] \<and> a < 30 \<and> e = [0x441] \<and> y = 0 then n + 1 else n)) \<and>
         (\<exists>n. select_count men_25_yes_where conn = Inr n \<and>
              select_count men_25_yes_where conn' =
                Inr (if g = [0x43C] \<and> a < 25 \<and> e = [0x43D] \<and> y = 1 then n + 1 else n))"
proof (intro conjI)
  show "\<exists>n. select_count men_40_yes_where conn = Inr n \<and>
            select_count men_40_yes_where conn' =
              Inr (if g = [0x43C] \<and> a > 40 \<and> e = [0x432] \<and> y = 1 then n + 1 else n)"
    using select_count_insert [OF assms, of men_40_yes_where]
    by (simp only: men_40_yes_where.simps Suc_eq_plus1)
  show "\<exists>n. select_count women_30_no_where conn = Inr n \<and>
            select_count women_30_no_where conn' =
              Inr (if g = [0x436] \<and> a < 30 \<and> e = [0x441] \<and> y = 0 then n + 1 else n)"
    using select_count_insert [OF assms, of women_30_no_where]
    by (simp only: women_30_no_where.simps Suc_eq_plus1)
  show "\<exists>n. select_count men_25_yes_where conn = Inr n \<and>
            select_count men_25_yes_where conn' =
              Inr (if g = [0x43C] \<and> a < 25 \<and> e = [0x43D] \<and> y = 1 then n + 1 else n)"
    using select_count_insert [OF assms, of men_25_yes_where]
    by (simp only: men_25_yes_where.simps Suc_eq_plus1)
qed

lemma foldr_max_ge: "x \<in> set xs \<Longrightarrow> x \<le> foldr max xs (b::nat)"
  by (induction xs) auto

lemma next_rowid_greater: "r \<in> set (forms d) \<Longrightarrow> fst r < next_rowid d"
  unfolding next_rowid_def
  using foldr_max_ge [of "fst r" "map fst (forms d)" "sqlite_sequence d"]
  by auto

lemma insort_key_last:
  "f y \<le> f x \<Longrightarrow> insort_key f y (zs @ [x]) = insort_key f y zs @ [x]"
  by (induction zs) auto

lemma sort_key_last:
  "\<forall>y\<in>set xs. f y \<le> f x \<Longrightarrow> sort_key f (xs @ [x]) = sort_key f xs @ [x]"
  by (induction xs) (auto simp: insort_key_last)

lemma select_forms_insert:
  assumes "execute_insert conn v = Inr conn'"
  shows "\<exists>rows. select_forms conn = Inr rows \<and> select_forms conn' = Inr (rows @ [v])"
proof -
  note ok = execute_insert_ok [OF assms]
  have "\<forall>r\<in>set (forms (working conn)). fst r \<le> fst (next_rowid (working conn), v)"
    using next_rowid_greater [of _ "working conn"] by (auto intro: less_imp_le)
  then have "sort_key fst (forms (working conn) @ [(next_rowid (working conn), v)]) =
             sort_key fst (forms (working conn)) @ [(next_rowid (working conn), v)]"
    by (rule sort_key_last)
  with ok show ?thesis
    by (simp add: select_forms_def)
qed


text \<open>The theorem on the empty store and the row of a man of 45.\<close>

theorem stats_count_insert_witness:
  "execute_insert (open_db None) (45, [0x43C], [0x432], 1) =
     Inr \<lparr>committed = empty_database,
          working = \<lparr>forms = [(1, (45, [0x43C], [0x432], 1))], sqlite_sequence = 1\<rparr>,
          closed = False\<rparr> \<and>
   select_count men_40_yes_where (open_db None) = Inr 0 \<and>
   select_count men_40_yes_where
     \<lparr>committed = empty_database,
      working = \<lparr>forms = [(1, (45, [0x43C], [0x432], 1))], sqlite_sequence = 1\<rparr>,
      closed = False\<rparr> = Inr 1"
proof -
  have ins: "execute_insert (open_db None) (45, [0x43C], [0x432], 1) =
     Inr \<lparr>committed = empty_database,
          working = \<lparr>forms = [(1, (45, [0x43C], [0x432], 1))], sqlite_sequence = 1\<rparr>,
          closed = False\<rparr>"
    by (simp add: execute_insert_def open_db_def Let_def empty_database_def insert_row_def
                  next_rowid_def int64_def)
  show ?thesis
    using stats_count_insert [OF ins] ins
    by (simp add: select_count_def open_db_def Let_def empty_database_def)
qed

text \<open>
  C7. Whatever an open connection holds, storing the row of a man of 45 with higher
  education who answered yes succeeds, raises the count of men over 40 with higher
  education and the answer yes by exactly one and leaves the two other counts as they
  were; storing the row of a woman of 20 with secondary education who answered no
  succeeds and raises the count of women under 30 with secondary education and the answer
  no by exactly one. The rows are written as \<open>add_form\<close> passes them to the store.
\<close>

theorem stats_scenarios:
  assumes "\<not> closed conn"
  shows "(\<exists>conn' n1 n2 n3.
            execute_insert conn (45, Gender_value MALE, Education_value HIGHER, int_of_bool True)
              = Inr conn' \<and>
            select_count men_40_yes_where conn = Inr n1 \<and>
            select_count men_40_yes_where conn' = Inr (n1 + 1) \<and>
            select_count women_30_no_where conn = Inr n2 \<and>
            select_count women_30_no_where conn' = Inr n2 \<and>
            select_count men_25_yes_where conn = Inr n3 \<and>
            select_count men_25_yes_where conn' = Inr n3) \<and>
         (\<exists>conn' n.
            execute_insert conn
              (20, Gender_value FEMALE, Education_value SECONDARY, int_of_bool False)
              = Inr conn' \<and>
            select_count women_30_no_where conn = Inr n \<and>
            select_count women_30_no_where conn' = Inr (n + 1))"
proof (intro conjI)
  let ?v = "(45, Gender_value MALE, Education_value HIGHER, int_of_bool True)"
  have "check_constraints ?v" by (simp add: int_of_bool_def)
  from execute_insert_valid [OF assms this]
  obtain conn' where ins: "execute_insert conn ?v = Inr conn'" by blast
  from select_count_insert [OF ins, of men_40_yes_where]
       select_count_insert [OF ins, of women_30_no_where]
       select_count_insert [OF ins, of men_25_yes_where]
  obtain n1 n2 n3 where
    "select_count men_40_yes_where conn = Inr n1"
    "select_count men_40_yes_where conn' = Inr (n1 + 1)"
    "select_count women_30_no_where conn = Inr n2"
    "select_count women_30_no_where conn' = Inr n2"
    "select_count men_25_yes_where conn = Inr n3"
    "select_count men_25_yes_where conn' = Inr n3"
    by (auto simp: int_of_bool_def)
  with ins show "\<exists>conn' n1 n2 n3.
            execute_insert conn ?v = Inr conn' \<and>
            select_count men_40_yes_where conn = Inr n1 \<and>
            select_count men_40_yes_where conn' = Inr (n1 + 1) \<and>
            select_count women_30_no_where conn = Inr n2 \<and>
            select_count women_30_no_where conn' = Inr n2 \<and>
            select_count men_25_yes_where conn = Inr n3 \<and>
            select_count men_25_yes_where conn' = Inr n3"
    by blast
next
  let ?v = "(20, Gender_value FEMALE, Education_value SECONDARY, int_of_bool False)"
  have "check_constraints ?v" by (simp add: int_of_bool_def)
  from execute_insert_valid [OF assms this]
  obtain conn' where ins: "execute_insert conn ?v = Inr conn'" by blast
  from select_count_insert [OF ins, of women_30_no_where]
  obtain n where
    "select_count women_30_no_where conn = Inr n"
    "select_count women_30_no_where conn' = Inr (n + 1)"
    by (auto simp: int_of_bool_def)
  with ins show "\<exists>conn' n.
            execute_insert conn ?v = Inr conn' \<and>
            select_count women_30_no_where conn = Inr n \<and>
            select_count women_30_no_where conn' = Inr (n + 1)"
    by blast
qed

text \<open>The theorem on the connection to a new file, where every count is zero.\<close>

theorem stats_scenarios_witness:
  "\<not> closed (open_db None) \<and>
   (\<exists>conn'.
      execute_insert (open_db None)
        (45, Gender_value MALE, Education_value HIGHER, int_of_bool True) = Inr conn' \<and>
      select_count men_40_yes_where conn' = Inr 1 \<and>
      select_count women_30_no_where conn' = Inr 0 \<and>
      select_count men_25_yes_where conn' = Inr 0) \<and>
   (\<exists>conn'.
      execute_insert (open_db None)
        (20, Gender_value FEMALE, Education_value SECONDARY, int_of_bool False) = Inr conn' \<and>
      select_count women_30_no_where conn' = Inr 1)"
proof -
  have op: "\<not> closed (open_db None)"
    by (simp add: open_db_def Let_def)
  have zero: "select_count cond (open_db None) = Inr 0" for cond
    by (simp add: select_count_def open_db_def Let_def empty_database_def)
  show ?thesis
    using stats_scenarios [OF op] op
    by (simp add: zero)
qed

text \<open>What the statistics print: the three counts, each after its label.\<close>

lemma show_stats_prints:
  assumes "select_count men_40_yes_where cur = Inr n1"
      and "select_count women_30_no_where cur = Inr n2"
      and "select_count men_25_yes_where cur = Inr n3"
  shows "show_stats (ls, out) cur =
           (Inr (), (ls, out @ [Print stats_header,
                                Print (stats_men_40 @ py_str (int n1)),
                                Print (stats_women_30 @ py_str (int n2)),
                                Print (stats_men_25 @ py_str (int n3)),
                                Print rule_line]))"
  using assms by (simp add: show_stats_def py_print_def)

section \<open>Storing and listing\<close>

text \<open>
  Several forms stored one after the other, each by the \<^verbatim>\<open>INSERT\<close> of \<open>add_form\<close>, as
  choice 1 taken once for each form does; the first failure ends the run.
\<close>

fun insert_forms :: "connection \<Rightarrow> Form list \<Rightarrow> py_error + connection" where
  "insert_forms conn [] = Inr conn"
| "insert_forms conn (f # fs) =
     (case execute_insert conn (form_params f) of
        Inl err \<Rightarrow> Inl err
      | Inr conn' \<Rightarrow> insert_forms conn' fs)"

lemma form_params_valid:
  "0 \<le> age f \<Longrightarrow> age f \<le> 120 \<Longrightarrow> check_constraints (form_params f)"
  by (cases "gender f"; cases "education f") (simp_all add: form_params_def int_of_bool_def)

lemma form_params_inj:
  fixes f f' :: Form
  assumes "form_params f = form_params f'"
  shows "f = f'"
proof -
  from assms have "age f = age f'"
    by (simp add: form_params_def)
  moreover from assms have "gender f = gender f'"
    by (cases "gender f"; cases "gender f'") (simp_all add: form_params_def)
  moreover from assms have "education f = education f'"
    by (cases "education f"; cases "education f'") (simp_all add: form_params_def)
  moreover from assms have "answer_yes f = answer_yes f'"
    by (simp add: form_params_def int_of_bool_def split: if_splits)
  ultimately show ?thesis by simp
qed

lemma insert_forms_lists:
  assumes "\<not> closed conn" and "\<forall>f\<in>set fs. 0 \<le> age f \<and> age f \<le> 120"
  shows "\<exists>conn' rows. insert_forms conn fs = Inr conn' \<and> select_forms conn = Inr rows \<and>
           select_forms conn' = Inr (rows @ map form_params fs)"
  using assms
proof (induction fs arbitrary: conn)
  case Nil
  then show ?case by (simp add: select_forms_def)
next
  case (Cons f fs)
  from Cons.prems have "check_constraints (form_params f)"
    by (simp add: form_params_valid)
  from execute_insert_valid [OF Cons.prems(1) this]
  obtain conn1 where ins: "execute_insert conn (form_params f) = Inr conn1" by blast
  from select_forms_insert [OF ins]
  obtain rows where rows: "select_forms conn = Inr rows"
    and rows1: "select_forms conn1 = Inr (rows @ [form_params f])" by blast
  from execute_insert_ok [OF ins] have "\<not> closed conn1" by simp
  from Cons.IH [OF this] Cons.prems(2)
  obtain conn' rows' where "insert_forms conn1 fs = Inr conn'"
    and "select_forms conn1 = Inr rows'"
    and "select_forms conn' = Inr (rows' @ map form_params fs)" by auto
  with ins rows rows1 show ?case by simp
qed

text \<open>
  C1. For every form with an age from 0 to 120 (its sex and its education are members of
  the two enumerations, its answer is a truth value), storing it on an open connection
  succeeds, and the listing read afterwards is the listing read before followed by the
  tuple of that form, from which all four fields are read back as they were. So the
  listing is in the order of insertion: forms stored one after the other appear after
  what was there, in the order in which they were stored.
\<close>

theorem insert_then_list:
  assumes "\<not> closed conn"
      and "0 \<le> age f" and "age f \<le> 120"
      and "\<forall>f\<in>set fs. 0 \<le> age f \<and> age f \<le> 120"
  shows "(\<exists>conn' rows.
            execute_insert conn (form_params f) = Inr conn' \<and>
            select_forms conn = Inr rows \<and>
            select_forms conn' = Inr (rows @ [form_params f])) \<and>
         (\<forall>f'. form_params f' = form_params f \<longrightarrow> f' = f) \<and>
         (\<exists>conn' rows.
            insert_forms conn fs = Inr conn' \<and>
            select_forms conn = Inr rows \<and>
            select_forms conn' = Inr (rows @ map form_params fs))"
proof (intro conjI)
  from assms(2,3) have "check_constraints (form_params f)"
    by (rule form_params_valid)
  from execute_insert_valid [OF assms(1) this]
  obtain conn' where ins: "execute_insert conn (form_params f) = Inr conn'" by blast
  from select_forms_insert [OF ins] ins
  show "\<exists>conn' rows.
            execute_insert conn (form_params f) = Inr conn' \<and>
            select_forms conn = Inr rows \<and>
            select_forms conn' = Inr (rows @ [form_params f])"
    by blast
next
  show "\<forall>f'. form_params f' = form_params f \<longrightarrow> f' = f"
    by (auto dest: form_params_inj)
next
  show "\<exists>conn' rows.
            insert_forms conn fs = Inr conn' \<and>
            select_forms conn = Inr rows \<and>
            select_forms conn' = Inr (rows @ map form_params fs)"
    using assms(1,4) by (rule insert_forms_lists)
qed

text \<open>
  The theorem on the connection to a new file, for a man of 45 and then, one after the
  other, a woman of 20 and the same man.
\<close>

theorem insert_then_list_witness:
  "\<not> closed (open_db None) \<and>
   (\<exists>conn'.
      execute_insert (open_db None) (45, [0x43C], [0x432], 1) = Inr conn' \<and>
      select_forms (open_db None) = Inr [] \<and>
      select_forms conn' = Inr [(45, [0x43C], [0x432], 1)]) \<and>
   (\<exists>conn'.
      insert_forms (open_db None)
        [\<lparr>age = 20, gender = FEMALE, education = SECONDARY, answer_yes = False\<rparr>,
         \<lparr>age = 45, gender = MALE, education = HIGHER, answer_yes = True\<rparr>] = Inr conn' \<and>
      select_forms conn' = Inr [(20, [0x436], [0x441], 0), (45, [0x43C], [0x432], 1)])"
proof -
  let ?m = "\<lparr>age = 45, gender = MALE, education = HIGHER, answer_yes = True\<rparr>"
  let ?w = "\<lparr>age = 20, gender = FEMALE, education = SECONDARY, answer_yes = False\<rparr>"
  have op: "\<not> closed (open_db None)"
    by (simp add: open_db_def Let_def)
  have none: "select_forms (open_db None) = Inr []"
    by (simp add: select_forms_def open_db_def Let_def empty_database_def)
  have m: "form_params ?m = (45, [0x43C], [0x432], 1)"
    by (simp add: form_params_def int_of_bool_def)
  have w: "form_params ?w = (20, [0x436], [0x441], 0)"
    by (simp add: form_params_def int_of_bool_def)
  have "\<forall>f\<in>set [?w, ?m]. 0 \<le> age f \<and> age f \<le> 120" by simp
  from insert_then_list [OF op _ _ this, of ?m] op none
  show ?thesis
    by (simp add: m w)
qed

text \<open>
  What the listing prints for rows whose education is one of the three letters: the
  header, one numbered line for each row in the order of the \<^verbatim>\<open>SELECT\<close>, and the rule.
\<close>

lemma print_rows_prints:
  assumes "\<forall>r\<in>set rows. format_row 0 r \<noteq> None"
  shows "print_rows idx rows (ls, out) =
           (Inr (), (ls, out @ map (\<lambda>(i, r). Print (the (format_row i r)))
                                  (zip [idx..<idx + length rows] rows)))"
  using assms
proof (induction rows arbitrary: idx out)
  case Nil
  show ?case by simp
next
  case (Cons r rows)
  obtain a g e y where r: "r = (a, g, e, y)" by (cases r)
  from Cons.prems have "edu_ru e \<noteq> None"
    by (auto simp: r split: option.splits)
  then obtain s where s: "format_row idx r = Some s"
    by (auto simp: r)
  have up: "[idx..<idx + length (r # rows)] = idx # [Suc idx..<Suc idx + length rows]"
    by (simp add: upt_rec)
  from Cons.prems have "\<forall>r\<in>set rows. format_row 0 r \<noteq> None" by simp
  from Cons.IH [OF this, of "Suc idx" "out @ [Print s]"]
  show ?case
    unfolding up by (simp add: s py_print_def)
qed

lemma list_forms_prints:
  assumes "select_forms cur = Inr rows" and "rows \<noteq> []"
      and "\<forall>r\<in>set rows. format_row 0 r \<noteq> None"
  shows "list_forms (ls, out) cur =
           (Inr (), (ls, out @ [Print list_header] @
                         map (\<lambda>(i, r). Print (the (format_row i r)))
                             (zip [1..<1 + length rows] rows) @
                         [Print rule_line]))"
  using assms(1,2) print_rows_prints [OF assms(3), of 1 ls "out @ [Print list_header]"]
  by (simp add: list_forms_def py_print_def)

lemma list_forms_empty:
  assumes "select_forms cur = Inr []"
  shows "list_forms (ls, out) cur = (Inr (), (ls, out @ [Print msg_empty_list]))"
  using assms by (simp add: list_forms_def py_print_def)

section \<open>The bounded-integer reader\<close>

lemma read_int_returns:
  assumes "read_int p lo hi (ls, out) = (Inr v, c')"
  shows "lo \<le> v \<and> v \<le> hi \<and> (\<exists>l\<in>set ls. py_int l = Some v)"
  using assms
proof (induction ls arbitrary: out)
  case Nil
  then show ?case by (simp add: read_int_eof)
next
  case (Cons l ls)
  show ?case
  proof (cases "py_int l")
    case None
    with Cons.prems have "read_int p lo hi (ls, out @ [Prompt p, Print msg_not_int]) = (Inr v, c')"
      by (simp add: read_int_line)
    from Cons.IH [OF this] show ?thesis by auto
  next
    case (Some n)
    show ?thesis
    proof (cases "lo \<le> n \<and> n \<le> hi")
      case True
      with Cons.prems Some show ?thesis by (simp add: read_int_line)
    next
      case False
      with Cons.prems Some
      have "read_int p lo hi (ls, out @ [Prompt p, Print (msg_range lo hi)]) = (Inr v, c')"
        by (simp add: read_int_line)
      from Cons.IH [OF this] show ?thesis by auto
    qed
  qed
qed

lemma read_int_prompts_first:
  "\<exists>rest. snd (snd (read_int p lo hi (ls, out))) = out @ Prompt p # rest"
proof (induction ls arbitrary: out)
  case Nil
  show ?case by (simp add: read_int_eof)
next
  case (Cons l ls)
  show ?case
  proof (cases "py_int l")
    case None
    from Cons.IH [of "out @ [Prompt p, Print msg_not_int]"] None
    show ?thesis by (auto simp: read_int_line)
  next
    case (Some n)
    from Cons.IH [of "out @ [Prompt p, Print (msg_range lo hi)]"] Some
    show ?thesis by (auto simp: read_int_line)
  qed
qed

lemma msg_range_not_msg_not_int: "msg_range lo hi \<noteq> msg_not_int"
  by (simp add: msg_range_def msg_range_from_def msg_not_int_def)

text \<open>
  C4. With bounds \<open>lo\<close> and \<open>hi\<close>, the reader returns a value only if a line that was
  entered reads as that integer and the integer is from \<open>lo\<close> to \<open>hi\<close>: it never returns a
  value outside the bounds. On a line that reads as an integer from \<open>lo\<close> to \<open>hi\<close> it
  returns it. On a line that reads as an integer outside the bounds it prints the message
  that names \<open>lo\<close> and \<open>hi\<close>, and on a line that does not read as an integer it prints
  another message, different from the first for all bounds; in both cases it goes on as
  on the remaining lines, which begins with the prompt again.
\<close>

theorem read_int_bounded:
  "(\<forall>v c'. read_int p lo hi (ls, out) = (Inr v, c') \<longrightarrow>
       lo \<le> v \<and> v \<le> hi \<and> (\<exists>l\<in>set ls. py_int l = Some v)) \<and>
   (py_int l = Some n \<and> lo \<le> n \<and> n \<le> hi \<longrightarrow>
       read_int p lo hi (l # ls, out) = (Inr n, (ls, out @ [Prompt p]))) \<and>
   (py_int l = Some n \<and> \<not> (lo \<le> n \<and> n \<le> hi) \<longrightarrow>
       read_int p lo hi (l # ls, out) =
         read_int p lo hi
           (ls, out @ [Prompt p,
                       Print (msg_range_from @ py_str lo @ msg_range_to @ py_str hi @ [0x2E])]) \<and>
       (\<exists>rest. snd (snd (read_int p lo hi (l # ls, out))) =
          out @ [Prompt p,
                 Print (msg_range_from @ py_str lo @ msg_range_to @ py_str hi @ [0x2E]),
                 Prompt p] @ rest)) \<and>
   (py_int l = None \<longrightarrow>
       read_int p lo hi (l # ls, out) =
         read_int p lo hi (ls, out @ [Prompt p, Print msg_not_int]) \<and>
       (\<exists>rest. snd (snd (read_int p lo hi (l # ls, out))) =
          out @ [Prompt p, Print msg_not_int, Prompt p] @ rest)) \<and>
   msg_range_from @ py_str lo @ msg_range_to @ py_str hi @ [0x2E] \<noteq> msg_not_int"
proof (intro conjI)
  show "\<forall>v c'. read_int p lo hi (ls, out) = (Inr v, c') \<longrightarrow>
          lo \<le> v \<and> v \<le> hi \<and> (\<exists>l\<in>set ls. py_int l = Some v)"
    using read_int_returns by blast
next
  show "py_int l = Some n \<and> lo \<le> n \<and> n \<le> hi \<longrightarrow>
          read_int p lo hi (l # ls, out) = (Inr n, (ls, out @ [Prompt p]))"
    by (simp add: read_int_line)
next
  show "py_int l = Some n \<and> \<not> (lo \<le> n \<and> n \<le> hi) \<longrightarrow>
       read_int p lo hi (l # ls, out) =
         read_int p lo hi
           (ls, out @ [Prompt p,
                       Print (msg_range_from @ py_str lo @ msg_range_to @ py_str hi @ [0x2E])]) \<and>
       (\<exists>rest. snd (snd (read_int p lo hi (l # ls, out))) =
          out @ [Prompt p,
                 Print (msg_range_from @ py_str lo @ msg_range_to @ py_str hi @ [0x2E]),
                 Prompt p] @ rest)"
    using read_int_prompts_first [of p lo hi ls "out @ [Prompt p, Print (msg_range lo hi)]"]
    by (auto simp: read_int_line msg_range_def)
next
  show "py_int l = None \<longrightarrow>
       read_int p lo hi (l # ls, out) =
         read_int p lo hi (ls, out @ [Prompt p, Print msg_not_int]) \<and>
       (\<exists>rest. snd (snd (read_int p lo hi (l # ls, out))) =
          out @ [Prompt p, Print msg_not_int, Prompt p] @ rest)"
    using read_int_prompts_first [of p lo hi ls "out @ [Prompt p, Print msg_not_int]"]
    by (auto simp: read_int_line)
next
  show "msg_range_from @ py_str lo @ msg_range_to @ py_str hi @ [0x2E] \<noteq> msg_not_int"
    using msg_range_not_msg_not_int [of lo hi] by (simp add: msg_range_def)
qed

text \<open>
  The theorem on the bounds of \<open>add_form\<close> and the three lines \<^verbatim>\<open>a\<close>, \<^verbatim>\<open>200\<close> and
  \<^verbatim>\<open>45\<close>: one message each for the first two, then the value.
\<close>

lemmas py_int_eval =
  py_int_def int_strip_def int_space_def parse_signed_def parse_unsigned_def is_digit_def
  digits_value_def max_str_digits_def py_isspace_def py_decimal_def decimal_zeros_def

theorem read_int_bounded_witness:
  "py_int [0x61] = None \<and> py_int [0x32, 0x30, 0x30] = Some 200 \<and>
   py_int [0x34, 0x35] = Some 45 \<and>
   read_int [] 0 120 ([[0x61], [0x32, 0x30, 0x30], [0x34, 0x35]], []) =
     (Inr 45,
      ([], [Prompt [], Print msg_not_int,
            Prompt [], Print (msg_range_from @ py_str 0 @ msg_range_to @ py_str 120 @ [0x2E]),
            Prompt []]))"
proof -
  have a: "py_int [0x61] = None"
    by (simp add: py_int_eval)
  have b: "py_int [0x32, 0x30, 0x30] = Some 200"
    by (simp add: py_int_eval)
  have c: "py_int [0x34, 0x35] = Some 45"
    by (simp add: py_int_eval)
  show ?thesis
    using read_int_bounded [of "[]" 0 120 "[[0x32, 0x30, 0x30], [0x34, 0x35]]" "[]" "[0x61]" 0]
          read_int_bounded [of "[]" 0 120 "[[0x34, 0x35]]" "[Prompt [], Print msg_not_int]"
                               "[0x32, 0x30, 0x30]" 200]
          read_int_bounded [of "[]" 0 120 "[]"
             "[Prompt [], Print msg_not_int, Prompt [],
               Print (msg_range_from @ py_str 0 @ msg_range_to @ py_str 120 @ [0x2E])]"
             "[0x34, 0x35]" 45]
          a b c
    by simp
qed

section \<open>The enumerated-choice reader\<close>

text \<open>
  Two texts match without regard to letter case when their lower-case forms are equal.
\<close>

definition ci_match :: "pystr \<Rightarrow> pystr \<Rightarrow> bool" where
  "ci_match s t \<longleftrightarrow> py_lower s = py_lower t"

lemma enum_find_Some:
  "enum_find val_of v ms = Some e \<Longrightarrow> e \<in> set ms \<and> val_of e = v"
  by (induction ms) (auto split: if_splits)

lemma enum_find_None:
  "enum_find val_of v ms = None \<longleftrightarrow> (\<forall>e\<in>set ms. val_of e \<noteq> v)"
  by (induction ms) auto

lemma enum_find_distinct:
  "e \<in> set ms \<Longrightarrow> inj_on val_of (set ms) \<Longrightarrow> enum_find val_of (val_of e) ms = Some e"
  by (induction ms) (auto simp: inj_on_def)

lemma Gender_value_lower [simp]: "py_lower (Gender_value g) = Gender_value g"
  by (cases g) (simp_all add: py_lower_def lower_cp_def)

lemma Education_value_lower [simp]: "py_lower (Education_value e) = Education_value e"
  by (cases e) (simp_all add: py_lower_def lower_cp_def)

lemma Gender_find:
  "enum_find Gender_value v Gender_members = Some g \<longleftrightarrow> v = Gender_value g"
  by (cases g) (auto simp: Gender_members_def)

lemma Education_find:
  "enum_find Education_value v Education_members = Some e \<longleftrightarrow> v = Education_value e"
  by (cases e) (auto simp: Education_members_def)

lemma read_enum_prompts_first:
  "\<exists>rest. snd (snd (read_enum p ms val_of (ls, out))) =
            out @ Prompt (enum_prompt p ms val_of) # rest"
proof (induction ls arbitrary: out)
  case Nil
  show ?case by (simp add: read_enum_eof)
next
  case (Cons l ls)
  from Cons.IH [of "out @ [Prompt (enum_prompt p ms val_of), Print msg_bad_input]"]
  show ?case
    by (cases "enum_find val_of (py_lower l) ms") (auto simp: read_enum_line)
qed

lemma read_enum_returns:
  assumes "read_enum p ms val_of (ls, out) = (Inr e, c')"
  shows "e \<in> set ms \<and> (\<exists>l\<in>set ls. py_lower l = val_of e)"
  using assms
proof (induction ls arbitrary: out)
  case Nil
  then show ?case by (simp add: read_enum_eof)
next
  case (Cons l ls)
  show ?case
  proof (cases "enum_find val_of (py_lower l) ms")
    case None
    with Cons.prems
    have "read_enum p ms val_of
            (ls, out @ [Prompt (enum_prompt p ms val_of), Print msg_bad_input]) = (Inr e, c')"
      by (simp add: read_enum_line)
    from Cons.IH [OF this] show ?thesis by auto
  next
    case (Some e')
    with Cons.prems have "e' = e" by (simp add: read_enum_line)
    with enum_find_Some [OF Some] show ?thesis by auto
  qed
qed

lemma Gender_no_match:
  "(\<forall>g. \<not> ci_match l (Gender_value g)) \<Longrightarrow>
     enum_find Gender_value (py_lower l) Gender_members = None"
  by (cases "enum_find Gender_value (py_lower l) Gender_members")
     (auto simp: Gender_find ci_match_def)

lemma Education_no_match:
  "(\<forall>e. \<not> ci_match l (Education_value e)) \<Longrightarrow>
     enum_find Education_value (py_lower l) Education_members = None"
  by (cases "enum_find Education_value (py_lower l) Education_members")
     (auto simp: Education_find ci_match_def)

lemma read_enum_rejects:
  assumes "enum_find val_of (py_lower l) ms = None"
  shows "read_enum p ms val_of (l # ls, out) =
           read_enum p ms val_of
             (ls, out @ [Prompt (enum_prompt p ms val_of), Print msg_bad_input]) \<and>
         (\<exists>rest. snd (snd (read_enum p ms val_of (l # ls, out))) =
            out @ [Prompt (enum_prompt p ms val_of), Print msg_bad_input,
                   Prompt (enum_prompt p ms val_of)] @ rest)"
  using assms
        read_enum_prompts_first
          [of p ms val_of ls "out @ [Prompt (enum_prompt p ms val_of), Print msg_bad_input]"]
  by (auto simp: read_enum_line)

text \<open>
  C5. For the two enumerations of the program, the reader accepts a line if and only if
  the line matches the token of a member without regard to letter case, and it returns
  that member. On any other line it prints its message and goes on as on the remaining
  lines, which begins with the prompt again; the prompt lists the tokens. So a member
  that the reader returns always comes from an entered line that matches its token.
\<close>

theorem read_enum_case_insensitive:
  "(ci_match l (Gender_value g) \<longrightarrow>
      read_enum p Gender_members Gender_value (l # ls, out) =
        (Inr g, (ls, out @ [Prompt (p @ [0x20, 0x28, 0x43C, 0x2F, 0x436, 0x29, 0x3A, 0x20])]))) \<and>
   ((\<forall>g. \<not> ci_match l (Gender_value g)) \<longrightarrow>
      read_enum p Gender_members Gender_value (l # ls, out) =
        read_enum p Gender_members Gender_value
          (ls, out @ [Prompt (p @ [0x20, 0x28, 0x43C, 0x2F, 0x436, 0x29, 0x3A, 0x20]),
                      Print msg_bad_input]) \<and>
      (\<exists>rest. snd (snd (read_enum p Gender_members Gender_value (l # ls, out))) =
         out @ [Prompt (p @ [0x20, 0x28, 0x43C, 0x2F, 0x436, 0x29, 0x3A, 0x20]),
                Print msg_bad_input,
                Prompt (p @ [0x20, 0x28, 0x43C, 0x2F, 0x436, 0x29, 0x3A, 0x20])] @ rest)) \<and>
   (\<forall>g c'. read_enum p Gender_members Gender_value (ls, out) = (Inr g, c') \<longrightarrow>
      (\<exists>l\<in>set ls. ci_match l (Gender_value g))) \<and>
   (ci_match l (Education_value e) \<longrightarrow>
      read_enum p Education_members Education_value (l # ls, out) =
        (Inr e, (ls, out @ [Prompt (p @ [0x20, 0x28, 0x43D, 0x2F, 0x441, 0x2F, 0x432,
                                         0x29, 0x3A, 0x20])]))) \<and>
   ((\<forall>e. \<not> ci_match l (Education_value e)) \<longrightarrow>
      read_enum p Education_members Education_value (l # ls, out) =
        read_enum p Education_members Education_value
          (ls, out @ [Prompt (p @ [0x20, 0x28, 0x43D, 0x2F, 0x441, 0x2F, 0x432,
                                   0x29, 0x3A, 0x20]),
                      Print msg_bad_input]) \<and>
      (\<exists>rest. snd (snd (read_enum p Education_members Education_value (l # ls, out))) =
         out @ [Prompt (p @ [0x20, 0x28, 0x43D, 0x2F, 0x441, 0x2F, 0x432, 0x29, 0x3A, 0x20]),
                Print msg_bad_input,
                Prompt (p @ [0x20, 0x28, 0x43D, 0x2F, 0x441, 0x2F, 0x432, 0x29, 0x3A, 0x20])]
               @ rest)) \<and>
   (\<forall>e c'. read_enum p Education_members Education_value (ls, out) = (Inr e, c') \<longrightarrow>
      (\<exists>l\<in>set ls. ci_match l (Education_value e)))"
proof -
  have gp: "enum_prompt p Gender_members Gender_value =
              p @ [0x20, 0x28, 0x43C, 0x2F, 0x436, 0x29, 0x3A, 0x20]"
    by (simp add: enum_prompt_def Gender_members_def)
  have ep: "enum_prompt p Education_members Education_value =
              p @ [0x20, 0x28, 0x43D, 0x2F, 0x441, 0x2F, 0x432, 0x29, 0x3A, 0x20]"
    by (simp add: enum_prompt_def Education_members_def)
  have g1: "ci_match l (Gender_value g) \<longrightarrow>
      read_enum p Gender_members Gender_value (l # ls, out) =
        (Inr g, (ls, out @ [Prompt (enum_prompt p Gender_members Gender_value)]))"
  proof
    assume "ci_match l (Gender_value g)"
    then have "enum_find Gender_value (py_lower l) Gender_members = Some g"
      by (simp add: Gender_find ci_match_def)
    then show "read_enum p Gender_members Gender_value (l # ls, out) =
        (Inr g, (ls, out @ [Prompt (enum_prompt p Gender_members Gender_value)]))"
      by (simp add: read_enum_line)
  qed
  have g2: "(\<forall>g. \<not> ci_match l (Gender_value g)) \<longrightarrow>
      read_enum p Gender_members Gender_value (l # ls, out) =
        read_enum p Gender_members Gender_value
          (ls, out @ [Prompt (enum_prompt p Gender_members Gender_value),
                      Print msg_bad_input]) \<and>
      (\<exists>rest. snd (snd (read_enum p Gender_members Gender_value (l # ls, out))) =
         out @ [Prompt (enum_prompt p Gender_members Gender_value), Print msg_bad_input,
                Prompt (enum_prompt p Gender_members Gender_value)] @ rest)"
    using read_enum_rejects [OF Gender_no_match] by blast
  have g3: "\<forall>g c'. read_enum p Gender_members Gender_value (ls, out) = (Inr g, c') \<longrightarrow>
      (\<exists>l\<in>set ls. ci_match l (Gender_value g))"
    using read_enum_returns [of p Gender_members Gender_value ls out]
    by (auto simp: ci_match_def)
  have e1: "ci_match l (Education_value e) \<longrightarrow>
      read_enum p Education_members Education_value (l # ls, out) =
        (Inr e, (ls, out @ [Prompt (enum_prompt p Education_members Education_value)]))"
  proof
    assume "ci_match l (Education_value e)"
    then have "enum_find Education_value (py_lower l) Education_members = Some e"
      by (simp add: Education_find ci_match_def)
    then show "read_enum p Education_members Education_value (l # ls, out) =
        (Inr e, (ls, out @ [Prompt (enum_prompt p Education_members Education_value)]))"
      by (simp add: read_enum_line)
  qed
  have e2: "(\<forall>e. \<not> ci_match l (Education_value e)) \<longrightarrow>
      read_enum p Education_members Education_value (l # ls, out) =
        read_enum p Education_members Education_value
          (ls, out @ [Prompt (enum_prompt p Education_members Education_value),
                      Print msg_bad_input]) \<and>
      (\<exists>rest. snd (snd (read_enum p Education_members Education_value (l # ls, out))) =
         out @ [Prompt (enum_prompt p Education_members Education_value), Print msg_bad_input,
                Prompt (enum_prompt p Education_members Education_value)] @ rest)"
    using read_enum_rejects [OF Education_no_match] by blast
  have e3: "\<forall>e c'. read_enum p Education_members Education_value (ls, out) = (Inr e, c') \<longrightarrow>
      (\<exists>l\<in>set ls. ci_match l (Education_value e))"
    using read_enum_returns [of p Education_members Education_value ls out]
    by (auto simp: ci_match_def)
  from g1 g2 g3 e1 e2 e3 show ?thesis
    unfolding gp ep by (intro conjI)
qed

text \<open>
  The theorem on three lines: the capital of the male letter is accepted as \<open>MALE\<close>, the
  capital of the letter of higher education as \<open>HIGHER\<close>, and the Latin letter
  \<^verbatim>\<open>m\<close> matches no token of either enumeration, so the line after it is read.
\<close>

theorem read_enum_case_insensitive_witness:
  "ci_match [0x41C] (Gender_value MALE) \<and>
   read_enum [] Gender_members Gender_value ([[0x41C]], []) =
     (Inr MALE, ([], [Prompt [0x20, 0x28, 0x43C, 0x2F, 0x436, 0x29, 0x3A, 0x20]])) \<and>
   ci_match [0x412] (Education_value HIGHER) \<and>
   read_enum [] Education_members Education_value ([[0x412]], []) =
     (Inr HIGHER,
      ([], [Prompt [0x20, 0x28, 0x43D, 0x2F, 0x441, 0x2F, 0x432, 0x29, 0x3A, 0x20]])) \<and>
   (\<forall>g. \<not> ci_match [0x6D] (Gender_value g)) \<and>
   read_enum [] Gender_members Gender_value ([[0x6D], [0x41C]], []) =
     (Inr MALE,
      ([], [Prompt [0x20, 0x28, 0x43C, 0x2F, 0x436, 0x29, 0x3A, 0x20], Print msg_bad_input,
            Prompt [0x20, 0x28, 0x43C, 0x2F, 0x436, 0x29, 0x3A, 0x20]]))"
proof -
  have m: "ci_match [0x41C] (Gender_value MALE)"
    by (simp add: ci_match_def py_lower_def lower_cp_def)
  have h: "ci_match [0x412] (Education_value HIGHER)"
    by (simp add: ci_match_def py_lower_def lower_cp_def)
  have n: "\<forall>g. \<not> ci_match [0x6D] (Gender_value g)"
  proof
    fix g show "\<not> ci_match [0x6D] (Gender_value g)"
      by (cases g) (simp_all add: ci_match_def py_lower_def lower_cp_def)
  qed
  show ?thesis
    using read_enum_case_insensitive [of "[0x41C]" MALE "[]" "[]" "[]" HIGHER]
          read_enum_case_insensitive [of "[0x412]" MALE "[]" "[]" "[]" HIGHER]
          read_enum_case_insensitive [of "[0x6D]" MALE "[]" "[[0x41C]]" "[]" HIGHER]
          read_enum_case_insensitive
            [of "[0x41C]" MALE "[]" "[]"
                "[Prompt [0x20, 0x28, 0x43C, 0x2F, 0x436, 0x29, 0x3A, 0x20], Print msg_bad_input]"
                HIGHER]
          m h n
    by simp
qed

section \<open>The yes/no reader\<close>

lemma read_yes_no_prompts_first:
  "\<exists>rest. snd (snd (read_yes_no p (ls, out))) = out @ Prompt (p @ yes_no_opts) # rest"
proof (induction ls arbitrary: out)
  case Nil
  show ?case by (simp add: read_yes_no_eof)
next
  case (Cons l ls)
  from Cons.IH [of "out @ [Prompt (p @ yes_no_opts), Print msg_yes_no]"]
  show ?case
    by (auto simp: read_yes_no_line)
qed

lemma read_yes_no_returns:
  assumes "read_yes_no p (ls, out) = (Inr b, c')"
  shows "\<exists>l\<in>set ls. py_lower l = (if b then [0x434] else [0x43D])"
  using assms
proof (induction ls arbitrary: out)
  case Nil
  then show ?case by (simp add: read_yes_no_eof)
next
  case (Cons l ls)
  show ?case
  proof (cases "py_lower l = [0x434] \<or> py_lower l = [0x43D]")
    case True
    with Cons.prems show ?thesis
      by (auto simp: read_yes_no_line)
  next
    case False
    with Cons.prems
    have "read_yes_no p (ls, out @ [Prompt (p @ yes_no_opts), Print msg_yes_no]) = (Inr b, c')"
      by (simp add: read_yes_no_line)
    from Cons.IH [OF this] show ?thesis by auto
  qed
qed

lemma lower_cp_yes: "lower_cp c = 0x434 \<longleftrightarrow> c = 0x434 \<or> c = 0x414"
  by (auto simp: lower_cp_def split: if_splits)

lemma lower_cp_no: "lower_cp c = 0x43D \<longleftrightarrow> c = 0x43D \<or> c = 0x41D"
  by (auto simp: lower_cp_def split: if_splits)

lemma py_lower_yes: "py_lower l = [0x434] \<longleftrightarrow> l = [0x434] \<or> l = [0x414]"
  by (cases l) (auto simp: py_lower_def lower_cp_yes)

lemma py_lower_no: "py_lower l = [0x43D] \<longleftrightarrow> l = [0x43D] \<or> l = [0x41D]"
  by (cases l) (auto simp: py_lower_def lower_cp_no)

text \<open>
  C6, as stated, fails: the reader lower-cases the line before it compares, so there are
  more than two lines that it accepts. The small letter of yes, the small letter of no
  and the capital letter of yes are three different lines, and each is returned as a
  truth value.
\<close>

theorem read_yes_no_two_tokens_counterexample:
  "read_yes_no [] ([[0x434]], []) = (Inr True, ([], [Prompt yes_no_opts])) \<and>
   read_yes_no [] ([[0x43D]], []) = (Inr False, ([], [Prompt yes_no_opts])) \<and>
   read_yes_no [] ([[0x414]], []) = (Inr True, ([], [Prompt yes_no_opts])) \<and>
   [0x414] \<noteq> [0x434 :: nat] \<and> [0x414] \<noteq> [0x43D :: nat]"
  by (simp add: read_yes_no_line py_lower_def lower_cp_def)

text \<open>
  C6, amended. The reader accepts exactly the lines whose lower-case form is one of the
  two tokens: the letter of yes, small or capital, is returned as true, and the letter of
  no, small or capital, as false. On every other line it prints its hint and goes on as
  on the remaining lines, which begins with the prompt again, so a truth value that it
  returns always comes from one of these four lines.
\<close>

theorem read_yes_no_accepts:
  "(l = [0x434] \<or> l = [0x414] \<longrightarrow>
      read_yes_no p (l # ls, out) = (Inr True, (ls, out @ [Prompt (p @ yes_no_opts)]))) \<and>
   (l = [0x43D] \<or> l = [0x41D] \<longrightarrow>
      read_yes_no p (l # ls, out) = (Inr False, (ls, out @ [Prompt (p @ yes_no_opts)]))) \<and>
   (l \<notin> {[0x434], [0x414], [0x43D], [0x41D]} \<longrightarrow>
      read_yes_no p (l # ls, out) =
        read_yes_no p (ls, out @ [Prompt (p @ yes_no_opts), Print msg_yes_no]) \<and>
      (\<exists>rest. snd (snd (read_yes_no p (l # ls, out))) =
         out @ [Prompt (p @ yes_no_opts), Print msg_yes_no, Prompt (p @ yes_no_opts)] @ rest)) \<and>
   (\<forall>b c'. read_yes_no p (ls, out) = (Inr b, c') \<longrightarrow>
      (\<exists>l\<in>set ls. if b then l = [0x434] \<or> l = [0x414] else l = [0x43D] \<or> l = [0x41D])) \<and>
   (py_lower l = [0x434] \<longleftrightarrow> l = [0x434] \<or> l = [0x414]) \<and>
   (py_lower l = [0x43D] \<longleftrightarrow> l = [0x43D] \<or> l = [0x41D])"
proof (intro conjI)
  show "l = [0x434] \<or> l = [0x414] \<longrightarrow>
      read_yes_no p (l # ls, out) = (Inr True, (ls, out @ [Prompt (p @ yes_no_opts)]))"
    by (auto simp: read_yes_no_line py_lower_def lower_cp_def)
next
  show "l = [0x43D] \<or> l = [0x41D] \<longrightarrow>
      read_yes_no p (l # ls, out) = (Inr False, (ls, out @ [Prompt (p @ yes_no_opts)]))"
    by (auto simp: read_yes_no_line py_lower_def lower_cp_def)
next
  show "l \<notin> {[0x434], [0x414], [0x43D], [0x41D]} \<longrightarrow>
      read_yes_no p (l # ls, out) =
        read_yes_no p (ls, out @ [Prompt (p @ yes_no_opts), Print msg_yes_no]) \<and>
      (\<exists>rest. snd (snd (read_yes_no p (l # ls, out))) =
         out @ [Prompt (p @ yes_no_opts), Print msg_yes_no, Prompt (p @ yes_no_opts)] @ rest)"
    using read_yes_no_prompts_first
            [of p ls "out @ [Prompt (p @ yes_no_opts), Print msg_yes_no]"]
    by (auto simp: read_yes_no_line py_lower_yes py_lower_no)
next
  show "\<forall>b c'. read_yes_no p (ls, out) = (Inr b, c') \<longrightarrow>
      (\<exists>l\<in>set ls. if b then l = [0x434] \<or> l = [0x414] else l = [0x43D] \<or> l = [0x41D])"
  proof (intro allI impI)
    fix b c'
    assume "read_yes_no p (ls, out) = (Inr b, c')"
    from read_yes_no_returns [OF this]
    show "\<exists>l\<in>set ls. if b then l = [0x434] \<or> l = [0x414] else l = [0x43D] \<or> l = [0x41D]"
      by (cases b) (auto simp: py_lower_yes py_lower_no)
  qed
next
  show "py_lower l = [0x434] \<longleftrightarrow> l = [0x434] \<or> l = [0x414]"
    by (rule py_lower_yes)
next
  show "py_lower l = [0x43D] \<longleftrightarrow> l = [0x43D] \<or> l = [0x41D]"
    by (rule py_lower_no)
qed

text \<open>
  The theorem on the capital letter of no, and on the Latin letter \<^verbatim>\<open>y\<close> followed by the
  small letter of yes.
\<close>

theorem read_yes_no_accepts_witness:
  "read_yes_no [] ([[0x41D]], []) = (Inr False, ([], [Prompt yes_no_opts])) \<and>
   [0x79] \<notin> {[0x434], [0x414], [0x43D], [0x41D :: nat]} \<and>
   read_yes_no [] ([[0x79], [0x434]], []) =
     (Inr True, ([], [Prompt yes_no_opts, Print msg_yes_no, Prompt yes_no_opts]))"
  using read_yes_no_accepts [of "[0x41D]" "[]" "[]" "[]"]
        read_yes_no_accepts [of "[0x79]" "[]" "[[0x434]]" "[]"]
        read_yes_no_accepts [of "[0x434]" "[]" "[]" "[Prompt yes_no_opts, Print msg_yes_no]"]
  by simp

section \<open>The records of the input layer\<close>

lemma read_int_returns_dest:
  "read_int p lo hi c = (Inr v, c') \<Longrightarrow> lo \<le> v \<and> v \<le> hi"
  using read_int_returns [of p lo hi "fst c" "snd c" v c'] by simp

lemma input_layer_valid:
  assumes "0 \<le> a" and "a \<le> 120"
  shows "check_constraints (a, Gender_value g, Education_value e, int_of_bool answer) \<and>
         int64 a \<and> int64 (int_of_bool answer)"
  using assms
  by (cases g; cases e) (simp_all add: int_of_bool_def int64_def)

lemma add_form_result:
  "add_form c cur =
     (case read_int prompt_age 0 120 c of
        (Inl err, c1) \<Rightarrow> (Inl err, c1, cur)
      | (Inr a, c1) \<Rightarrow>
     (case read_enum prompt_gender Gender_members Gender_value c1 of
        (Inl err, c2) \<Rightarrow> (Inl err, c2, cur)
      | (Inr g, c2) \<Rightarrow>
     (case read_enum prompt_education Education_members Education_value c2 of
        (Inl err, c3) \<Rightarrow> (Inl err, c3, cur)
      | (Inr e, c3) \<Rightarrow>
     (case read_yes_no prompt_answer c3 of
        (Inl err, c4) \<Rightarrow> (Inl err, c4, cur)
      | (Inr answer, c4) \<Rightarrow>
          if closed cur then (Inl ProgrammingError, c4, cur)
          else (Inr (), py_print msg_added c4,
                cur\<lparr>working := insert_row (working cur)
                       (a, Gender_value g, Education_value e, int_of_bool answer)\<rparr>)))))"
proof -
  have ins: "execute_insert cur (a, Gender_value g, Education_value e, int_of_bool answer) =
          (if closed cur then Inl ProgrammingError
           else Inr (cur\<lparr>working := insert_row (working cur)
                       (a, Gender_value g, Education_value e, int_of_bool answer)\<rparr>))"
    if "0 \<le> a \<and> a \<le> 120" for a g e answer
    using input_layer_valid [of a g e answer] that
    by (simp add: execute_insert_def)
  show ?thesis
    unfolding add_form_def
    by (auto split: prod.splits sum.splits dest!: read_int_returns_dest simp: ins)
qed

lemma read_int_error:
  "read_int p lo hi (ls, out) = (Inl err, c') \<Longrightarrow> err = EOFError"
proof (induction ls arbitrary: out)
  case Nil
  then show ?case by (simp add: read_int_eof)
next
  case (Cons l ls)
  then show ?case
    by (auto simp: read_int_line split: option.splits if_splits)
qed

lemma read_enum_error:
  "read_enum p ms val_of (ls, out) = (Inl err, c') \<Longrightarrow> err = EOFError"
proof (induction ls arbitrary: out)
  case Nil
  then show ?case by (simp add: read_enum_eof)
next
  case (Cons l ls)
  then show ?case
    by (auto simp: read_enum_line split: option.splits)
qed

lemma read_yes_no_error:
  "read_yes_no p (ls, out) = (Inl err, c') \<Longrightarrow> err = EOFError"
proof (induction ls arbitrary: out)
  case Nil
  then show ?case by (simp add: read_yes_no_eof)
next
  case (Cons l ls)
  then show ?case
    by (auto simp: read_yes_no_line split: if_splits)
qed

lemma add_form_error:
  assumes "add_form c cur = (Inl err, c', cur')"
  shows "err = EOFError \<or> (err = ProgrammingError \<and> closed cur)"
proof -
  have ri: "read_int p lo hi c = (Inl err, c') \<Longrightarrow> err = EOFError" for p lo hi c err c'
    using read_int_error [of p lo hi "fst c" "snd c"] by simp
  have re: "read_enum p ms val_of c = (Inl err, c') \<Longrightarrow> err = EOFError"
    for p and ms :: "'e list" and val_of c err c'
    using read_enum_error [of p ms val_of "fst c" "snd c"] by simp
  have ry: "read_yes_no p c = (Inl err, c') \<Longrightarrow> err = EOFError" for p c err c'
    using read_yes_no_error [of p "fst c" "snd c"] by simp
  from assms show ?thesis
    unfolding add_form_result
    by (auto split: prod.splits sum.splits if_splits dest: ri re ry)
qed

text \<open>
  C3. The age that \<open>add_form\<close> gets from \<open>read_int\<close> is from 0 to 120, the sex and the
  education are members of the two enumerations, and the answer becomes 0 or 1: so the
  tuple that \<open>add_form\<close> passes to the \<^verbatim>\<open>INSERT\<close> meets all four \<^verbatim>\<open>CHECK\<close>
  constraints, whatever was entered. Hence \<open>add_form\<close> never fails with
  \<^verbatim>\<open>IntegrityError\<close> (nor with \<^verbatim>\<open>OverflowError\<close>): on an open connection it either
  stores the row or runs out of input.
\<close>

theorem add_form_meets_constraints:
  "(read_int prompt_age 0 120 c = (Inr a, c1) \<longrightarrow>
      check_constraints (a, Gender_value g, Education_value e, int_of_bool answer)) \<and>
   fst (add_form c cur) \<noteq> Inl IntegrityError \<and>
   fst (add_form c cur) \<noteq> Inl OverflowError \<and>
   (\<not> closed cur \<longrightarrow>
      fst (add_form c cur) = Inr () \<or> fst (add_form c cur) = Inl EOFError)"
proof (intro conjI)
  show "read_int prompt_age 0 120 c = (Inr a, c1) \<longrightarrow>
      check_constraints (a, Gender_value g, Education_value e, int_of_bool answer)"
    using input_layer_valid [of a g e answer]
    by (auto dest: read_int_returns_dest)
next
  obtain r c' cur' where res: "add_form c cur = (r, c', cur')"
    by (cases "add_form c cur")
  note err = add_form_error [of c cur _ c' cur']
  show "fst (add_form c cur) \<noteq> Inl IntegrityError"
    using err [of IntegrityError] by (auto simp: res)
  show "fst (add_form c cur) \<noteq> Inl OverflowError"
    using err [of OverflowError] by (auto simp: res)
  show "\<not> closed cur \<longrightarrow>
      fst (add_form c cur) = Inr () \<or> fst (add_form c cur) = Inl EOFError"
  proof (cases r)
    case (Inl e')
    with err [of e'] res show ?thesis by auto
  next
    case (Inr u)
    with res show ?thesis by simp
  qed
qed

text \<open>
  The theorem on a new file and the four lines \<^verbatim>\<open>45\<close>, the male letter, the letter of
  higher education and the letter of yes: the row is stored.
\<close>

theorem add_form_meets_constraints_witness:
  "read_int prompt_age 0 120 ([[0x34, 0x35], [0x43C], [0x432], [0x434]], []) =
     (Inr 45, ([[0x43C], [0x432], [0x434]], [Prompt prompt_age])) \<and>
   check_constraints (45, Gender_value MALE, Education_value HIGHER, int_of_bool True) \<and>
   \<not> closed (open_db None) \<and>
   fst (add_form ([[0x34, 0x35], [0x43C], [0x432], [0x434]], []) (open_db None)) = Inr () \<and>
   forms (working (snd (snd
     (add_form ([[0x34, 0x35], [0x43C], [0x432], [0x434]], []) (open_db None))))) =
     [(1, (45, [0x43C], [0x432], 1))]"
proof -
  have age: "py_int [0x34, 0x35] = Some 45"
    by (simp add: py_int_eval)
  have ri: "read_int prompt_age 0 120 ([[0x34, 0x35], [0x43C], [0x432], [0x434]], []) =
     (Inr 45, ([[0x43C], [0x432], [0x434]], [Prompt prompt_age]))"
    by (simp add: read_int_line age)
  have op: "\<not> closed (open_db None)"
    by (simp add: open_db_def Let_def)
  have g: "enum_find Gender_value (py_lower [0x43C]) Gender_members = Some MALE"
    by (simp add: Gender_find py_lower_def lower_cp_def)
  have e: "enum_find Education_value (py_lower [0x432]) Education_members = Some HIGHER"
    by (simp add: Education_find py_lower_def lower_cp_def)
  have y: "py_lower [0x434] = [0x434]"
    by (simp add: py_lower_def lower_cp_def)
  have run: "add_form ([[0x34, 0x35], [0x43C], [0x432], [0x434]], []) (open_db None) =
     (Inr (),
      py_print msg_added
        ([], [Prompt prompt_age, Prompt (enum_prompt prompt_gender Gender_members Gender_value),
              Prompt (enum_prompt prompt_education Education_members Education_value),
              Prompt (prompt_answer @ yes_no_opts)]),
      (open_db None)\<lparr>working := insert_row (working (open_db None))
         (45, Gender_value MALE, Education_value HIGHER, int_of_bool True)\<rparr>)"
    unfolding add_form_result
    by (simp add: ri read_enum_line g e read_yes_no_line y op)
  have res: "fst (add_form ([[0x34, 0x35], [0x43C], [0x432], [0x434]], []) (open_db None)) =
     Inr ()"
    by (simp add: run)
  have rows: "forms (working (snd (snd
     (add_form ([[0x34, 0x35], [0x43C], [0x432], [0x434]], []) (open_db None))))) =
     [(1, (45, [0x43C], [0x432], 1))]"
    unfolding run
    by (simp add: insert_row_def next_rowid_def open_db_def Let_def empty_database_def
                  int_of_bool_def)
  show ?thesis
    using add_form_meets_constraints
            [of "([[0x34, 0x35], [0x43C], [0x432], [0x434]], [])" 45
                "([[0x43C], [0x432], [0x434]], [Prompt prompt_age])" MALE HIGHER True
                "open_db None"]
          ri op res rows
    by simp
qed

section \<open>The menu loop as a state machine\<close>

lemma add_form_closed:
  "add_form c cur = (r, c', cur') \<Longrightarrow> closed cur' = closed cur"
  unfolding add_form_result
  by (auto split: prod.splits sum.splits if_splits)

lemma show_stats_open:
  "\<not> closed cur \<Longrightarrow> fst (show_stats c cur) = Inr ()"
  by (simp add: show_stats_def select_count_def)

lemma loop_body_closed:
  assumes "loop_body c conn = (r, c', conn')"
  shows "closed conn' = closed conn"
proof -
  obtain ls out where c: "c = (ls, out)" by (cases c)
  show ?thesis
  proof (cases ls)
    case Nil
    with assms c show ?thesis by (auto simp: loop_body_def menu_eof)
  next
    case (Cons l ls')
    from assms show ?thesis
      unfolding c Cons loop_body_def menu_line
      by (auto simp: commit_def split: if_splits sum.splits prod.splits
               dest: add_form_closed)
  qed
qed

lemma loop_body_exited:
  assumes "loop_body c conn = (Inr Exited, c', conn')"
  shows "\<exists>l ls. fst c = l # ls \<and> py_strip l = [0x30] \<and> conn' = conn"
proof -
  obtain ls out where c: "c = (ls, out)" by (cases c)
  show ?thesis
  proof (cases ls)
    case Nil
    with assms c show ?thesis by (auto simp: loop_body_def menu_eof)
  next
    case (Cons l ls')
    from assms show ?thesis
      unfolding c Cons loop_body_def menu_line
      by (auto split: if_splits sum.splits prod.splits)
  qed
qed

lemma main_loop_exit:
  "main_loop c conn = (None, c', conn') \<Longrightarrow>
     \<exists>c0 conn0. loop_body c0 conn0 = (Inr Exited, c', conn')"
proof (induction c conn rule: main_loop.induct)
  case (1 c conn)
  obtain r c1 conn1 where body: "loop_body c conn = (r, c1, conn1)"
    by (cases "loop_body c conn")
  show ?case
  proof (cases r)
    case (Inl err)
    with body "1.prems" show ?thesis
      by (simp add: main_loop.simps [of c conn])
  next
    case (Inr st)
    show ?thesis
    proof (cases st)
      case Running
      with body Inr "1.prems" have "main_loop c1 conn1 = (None, c', conn')"
        by (simp add: main_loop.simps [of c conn])
      from "1.IH" [OF body [symmetric] Inr Running refl this]
      show ?thesis .
    next
      case Exited
      with body Inr "1.prems" have "loop_body c conn = (Inr Exited, c', conn')"
        by (simp add: main_loop.simps [of c conn])
      then show ?thesis by blast
    qed
  qed
qed

text \<open>
  C8. One turn of the loop on an open connection, by the choice (the entered line,
  stripped). On \<^verbatim>\<open>1\<close> it runs \<open>add_form\<close> and, when that returns, commits: what the
  connection sees becomes what the file holds, and the turn ends in \<open>Running\<close>. On \<^verbatim>\<open>2\<close>
  it runs \<open>list_forms\<close> and on \<^verbatim>\<open>3\<close> \<open>show_stats\<close>, and ends in \<open>Running\<close>. On \<^verbatim>\<open>0\<close>
  it ends in \<open>Exited\<close>. On any other choice it prints its message and ends in \<open>Running\<close>.
  An exception of \<open>add_form\<close> or \<open>list_forms\<close> leaves the loop as it is. Only the choice
  \<^verbatim>\<open>0\<close> ends a turn in \<open>Exited\<close>, and the loop returns only after such a turn.
\<close>

theorem menu_loop_transitions:
  assumes "\<not> closed conn"
  shows "(py_strip l = [0x31] \<longrightarrow>
            loop_body (l # ls, out) conn =
              (case add_form (snd (menu (l # ls, out))) conn of
                 (Inl err, c2, conn2) \<Rightarrow> (Inl err, c2, conn2)
               | (Inr u, c2, conn2) \<Rightarrow>
                   (Inr Running, c2, conn2\<lparr>committed := working conn2\<rparr>))) \<and>
         (py_strip l = [0x32] \<longrightarrow>
            loop_body (l # ls, out) conn =
              (case list_forms (snd (menu (l # ls, out))) conn of
                 (Inl err, c2) \<Rightarrow> (Inl err, c2, conn)
               | (Inr u, c2) \<Rightarrow> (Inr Running, c2, conn))) \<and>
         (py_strip l = [0x33] \<longrightarrow>
            loop_body (l # ls, out) conn =
              (Inr Running, snd (show_stats (snd (menu (l # ls, out))) conn), conn)) \<and>
         (py_strip l = [0x30] \<longrightarrow>
            loop_body (l # ls, out) conn = (Inr Exited, snd (menu (l # ls, out)), conn)) \<and>
         (py_strip l \<notin> {[0x31], [0x32], [0x33], [0x30]} \<longrightarrow>
            loop_body (l # ls, out) conn =
              (Inr Running, py_print msg_no_item (snd (menu (l # ls, out))), conn)) \<and>
         (\<forall>c c' conn'. loop_body c conn = (Inr Exited, c', conn') \<longrightarrow>
            (\<exists>l ls. fst c = l # ls \<and> py_strip l = [0x30])) \<and>
         (\<forall>c c' conn'. main_loop c conn = (None, c', conn') \<longrightarrow>
            (\<exists>c0 conn0 l ls. loop_body c0 conn0 = (Inr Exited, c', conn') \<and>
                              fst c0 = l # ls \<and> py_strip l = [0x30]))"
proof (intro conjI)
  show "py_strip l = [0x31] \<longrightarrow>
            loop_body (l # ls, out) conn =
              (case add_form (snd (menu (l # ls, out))) conn of
                 (Inl err, c2, conn2) \<Rightarrow> (Inl err, c2, conn2)
               | (Inr u, c2, conn2) \<Rightarrow>
                   (Inr Running, c2, conn2\<lparr>committed := working conn2\<rparr>))"
    using assms
    by (auto simp: loop_body_def menu_line commit_def split: prod.splits sum.splits
             dest: add_form_closed)
next
  show "py_strip l = [0x32] \<longrightarrow>
            loop_body (l # ls, out) conn =
              (case list_forms (snd (menu (l # ls, out))) conn of
                 (Inl err, c2) \<Rightarrow> (Inl err, c2, conn)
               | (Inr u, c2) \<Rightarrow> (Inr Running, c2, conn))"
    by (simp add: loop_body_def menu_line)
next
  show "py_strip l = [0x33] \<longrightarrow>
            loop_body (l # ls, out) conn =
              (Inr Running, snd (show_stats (snd (menu (l # ls, out))) conn), conn)"
    using show_stats_open [OF assms, of "snd (menu (l # ls, out))"]
    by (auto simp: loop_body_def menu_line split: prod.splits sum.splits)
next
  show "py_strip l = [0x30] \<longrightarrow>
            loop_body (l # ls, out) conn = (Inr Exited, snd (menu (l # ls, out)), conn)"
    by (simp add: loop_body_def menu_line)
next
  show "py_strip l \<notin> {[0x31], [0x32], [0x33], [0x30]} \<longrightarrow>
            loop_body (l # ls, out) conn =
              (Inr Running, py_print msg_no_item (snd (menu (l # ls, out))), conn)"
    by (simp add: loop_body_def menu_line)
next
  show "\<forall>c c' conn'. loop_body c conn = (Inr Exited, c', conn') \<longrightarrow>
            (\<exists>l ls. fst c = l # ls \<and> py_strip l = [0x30])"
    using loop_body_exited by blast
next
  show "\<forall>c c' conn'. main_loop c conn = (None, c', conn') \<longrightarrow>
            (\<exists>c0 conn0 l ls. loop_body c0 conn0 = (Inr Exited, c', conn') \<and>
                              fst c0 = l # ls \<and> py_strip l = [0x30])"
  proof (intro allI impI)
    fix c c' conn'
    assume "main_loop c conn = (None, c', conn')"
    from main_loop_exit [OF this]
    obtain c0 conn0 where ex: "loop_body c0 conn0 = (Inr Exited, c', conn')" by blast
    from loop_body_exited [OF ex] ex
    show "\<exists>c0 conn0 l ls. loop_body c0 conn0 = (Inr Exited, c', conn') \<and>
                              fst c0 = l # ls \<and> py_strip l = [0x30]"
      by blast
  qed
qed

text \<open>
  A run of \<open>add_form\<close> on the four lines \<^verbatim>\<open>45\<close>, the male letter, the letter of
  higher education and the letter of yes.
\<close>

lemma add_form_example:
  assumes "\<not> closed cur"
  shows "add_form ([0x34, 0x35] # [0x43C] # [0x432] # [0x434] # ls, out) cur =
           (Inr (),
            (ls, out @ [Prompt prompt_age,
                        Prompt (enum_prompt prompt_gender Gender_members Gender_value),
                        Prompt (enum_prompt prompt_education Education_members Education_value),
                        Prompt (prompt_answer @ yes_no_opts),
                        Print msg_added]),
            cur\<lparr>working := insert_row (working cur) (45, [0x43C], [0x432], 1)\<rparr>)"
proof -
  have age: "py_int [0x34, 0x35] = Some 45"
    by (simp add: py_int_eval)
  have g: "enum_find Gender_value (py_lower [0x43C]) Gender_members = Some MALE"
    by (simp add: Gender_find py_lower_def lower_cp_def)
  have e: "enum_find Education_value (py_lower [0x432]) Education_members = Some HIGHER"
    by (simp add: Education_find py_lower_def lower_cp_def)
  have y: "py_lower [0x434] = [0x434]"
    by (simp add: py_lower_def lower_cp_def)
  show ?thesis
    unfolding add_form_result
    by (simp add: read_int_line age read_enum_line g e read_yes_no_line y assms
                  py_print_def int_of_bool_def)
qed

text \<open>
  The theorem on a new file: the turns on the lines \<^verbatim>\<open>0\<close> and \<^verbatim>\<open>9\<close>, and the turn
  on \<^verbatim>\<open>1\<close> followed by the four answers, after which the file holds the row.
\<close>

theorem menu_loop_transitions_witness:
  "\<not> closed (open_db None) \<and>
   py_strip [0x30] = [0x30] \<and>
   loop_body ([[0x30]], []) (open_db None) =
     (Inr Exited,
      ([], [Print menu_title, Print menu_add, Print menu_list, Print menu_stats,
            Print menu_exit, Prompt prompt_choice]),
      open_db None) \<and>
   py_strip [0x39] \<notin> {[0x31], [0x32], [0x33], [0x30]} \<and>
   loop_body ([[0x39]], []) (open_db None) =
     (Inr Running,
      ([], [Print menu_title, Print menu_add, Print menu_list, Print menu_stats,
            Print menu_exit, Prompt prompt_choice, Print msg_no_item]),
      open_db None) \<and>
   py_strip [0x31] = [0x31] \<and>
   fst (loop_body ([[0x31], [0x34, 0x35], [0x43C], [0x432], [0x434]], []) (open_db None)) =
     Inr Running \<and>
   forms (committed (snd (snd
     (loop_body ([[0x31], [0x34, 0x35], [0x43C], [0x432], [0x434]], []) (open_db None))))) =
     [(1, (45, [0x43C], [0x432], 1))]"
proof -
  have op: "\<not> closed (open_db None)"
    by (simp add: open_db_def Let_def)
  have s0: "py_strip [0x30] = [0x30]" and s9: "py_strip [0x39] = [0x39]"
    and s1: "py_strip [0x31] = [0x31]"
    by (simp_all add: py_strip_def py_isspace_def)
  have quit: "loop_body ([[0x30]], []) (open_db None) =
     (Inr Exited,
      ([], [Print menu_title, Print menu_add, Print menu_list, Print menu_stats,
            Print menu_exit, Prompt prompt_choice]),
      open_db None)"
    using menu_loop_transitions [OF op, of "[0x30]" "[]" "[]"] s0
    by (simp add: menu_line)
  have other: "loop_body ([[0x39]], []) (open_db None) =
     (Inr Running,
      ([], [Print menu_title, Print menu_add, Print menu_list, Print menu_stats,
            Print menu_exit, Prompt prompt_choice, Print msg_no_item]),
      open_db None)"
    using menu_loop_transitions [OF op, of "[0x39]" "[]" "[]"] s9
    by (simp add: menu_line py_print_def)
  have add: "loop_body ([[0x31], [0x34, 0x35], [0x43C], [0x432], [0x434]], []) (open_db None) =
     (Inr Running,
      ([], [Print menu_title, Print menu_add, Print menu_list, Print menu_stats,
            Print menu_exit, Prompt prompt_choice, Prompt prompt_age,
            Prompt (enum_prompt prompt_gender Gender_members Gender_value),
            Prompt (enum_prompt prompt_education Education_members Education_value),
            Prompt (prompt_answer @ yes_no_opts), Print msg_added]),
      (open_db None)
        \<lparr>working := insert_row (working (open_db None)) (45, [0x43C], [0x432], 1),
         committed := insert_row (working (open_db None)) (45, [0x43C], [0x432], 1)\<rparr>)"
    using menu_loop_transitions
            [OF op, of "[0x31]" "[[0x34, 0x35], [0x43C], [0x432], [0x434]]" "[]"] s1
    by (simp add: menu_line add_form_example [OF op])
  have rows: "forms (committed (snd (snd
     (loop_body ([[0x31], [0x34, 0x35], [0x43C], [0x432], [0x434]], []) (open_db None))))) =
     [(1, (45, [0x43C], [0x432], 1))]"
    unfolding add
    by (simp add: insert_row_def next_rowid_def open_db_def Let_def empty_database_def)
  have run: "fst (loop_body ([[0x31], [0x34, 0x35], [0x43C], [0x432], [0x434]], [])
                    (open_db None)) = Inr Running"
    unfolding add by simp
  from op s0 quit s9 other s1 run rows show ?thesis
    by simp
qed

section \<open>Closing the connection\<close>

lemma main_loop_closed:
  "closed (snd (snd (main_loop c conn))) = closed conn"
proof (induction c conn rule: main_loop.induct)
  case (1 c conn)
  obtain r c1 conn1 where body: "loop_body c conn = (r, c1, conn1)"
    by (cases "loop_body c conn")
  note same = loop_body_closed [OF body]
  show ?case
  proof (cases r)
    case (Inl err)
    with body same show ?thesis
      by (simp add: main_loop.simps [of c conn])
  next
    case (Inr st)
    show ?thesis
    proof (cases st)
      case Running
      from "1.IH" [OF body [symmetric] Inr Running refl] body Inr Running same
      show ?thesis
        by (simp add: main_loop.simps [of c conn])
    next
      case Exited
      with body Inr same show ?thesis
        by (simp add: main_loop.simps [of c conn])
    qed
  qed
qed

lemma main_result:
  "main file lines =
     (fst (main_loop (lines, []) (open_db file)),
      py_print msg_goodbye (fst (snd (main_loop (lines, []) (open_db file)))),
      close (snd (snd (main_loop (lines, []) (open_db file)))))"
  by (simp add: main_def Let_def split: prod.splits option.splits)

text \<open>
  C9. Whatever the file holds and whatever is entered, \<open>main\<close> ends, and when it ends the
  connection is closed: after the choice \<^verbatim>\<open>0\<close>, where \<open>main\<close> returns, and after an
  exception of an operation, which \<open>main\<close> passes on, alike. Until the loop is left the
  connection is open, and what is written last is the farewell.
\<close>

theorem main_closes_connection:
  "closed (snd (snd (main file lines))) \<and>
   \<not> closed (snd (snd (main_loop (lines, []) (open_db file)))) \<and>
   fst (main file lines) = fst (main_loop (lines, []) (open_db file)) \<and>
   (\<exists>out. snd (fst (snd (main file lines))) = out @ [Print msg_goodbye])"
proof (intro conjI)
  show "closed (snd (snd (main file lines)))"
    by (simp add: main_result close_def)
  show "\<not> closed (snd (snd (main_loop (lines, []) (open_db file))))"
    by (simp add: main_loop_closed open_db_def Let_def)
  show "fst (main file lines) = fst (main_loop (lines, []) (open_db file))"
    by (simp add: main_result)
  show "\<exists>out. snd (fst (snd (main file lines))) = out @ [Print msg_goodbye]"
    by (simp add: main_result py_print_def)
qed

text \<open>
  Three runs on a new or an old file: the choice \<^verbatim>\<open>0\<close>, after which \<open>main\<close> returns;
  no input at all, where \<^verbatim>\<open>input\<close> raises \<^verbatim>\<open>EOFError\<close>; and the choice \<^verbatim>\<open>2\<close> on a
  file whose table holds a row with an education that the listing does not know, where
  \<open>list_forms\<close> raises \<^verbatim>\<open>KeyError\<close>. Each ends with the connection closed.
\<close>

lemma main_quits:
  "main None [[0x30]] =
     (None,
      ([], [Print menu_title, Print menu_add, Print menu_list, Print menu_stats,
            Print menu_exit, Prompt prompt_choice, Print msg_goodbye]),
      \<lparr>committed = empty_database, working = empty_database, closed = True\<rparr>)"
  by (simp add: main_def Let_def main_loop.simps [of "([[0x30]], [])"] loop_body_def menu_line
                py_strip_def py_isspace_def py_print_def close_def open_db_def)

lemma main_end_of_input:
  "main None [] =
     (Some EOFError,
      ([], [Print menu_title, Print menu_add, Print menu_list, Print menu_stats,
            Print menu_exit, Prompt prompt_choice, Print msg_goodbye]),
      \<lparr>committed = empty_database, working = empty_database, closed = True\<rparr>)"
  by (simp add: main_def Let_def main_loop.simps [of "([], [])"] loop_body_def menu_eof
                py_print_def close_def open_db_def)

lemma main_key_error:
  "fst (main (Some \<lparr>forms = [(1, (30, [0x43C], [0x78], 1))], sqlite_sequence = 1\<rparr>) [[0x32]]) =
     Some KeyError \<and>
   closed (snd (snd
     (main (Some \<lparr>forms = [(1, (30, [0x43C], [0x78], 1))], sqlite_sequence = 1\<rparr>) [[0x32]])))"
  by (simp add: main_def Let_def main_loop.simps [of "([[0x32]], [])"] loop_body_def menu_line
                py_strip_def py_isspace_def py_print_def close_def open_db_def
                list_forms_def select_forms_def edu_ru_def)

end
